theory Spec2Isabelle
  imports Main "HOL-Library.Sublist"
begin

section \<open>Python text and numbers\<close>

text \<open>
  A Python \<^verbatim>\<open>str\<close> is a sequence of Unicode code points, so it is modelled as a list of
  natural numbers (the code points). Literals are written \<open>u ''...''\<close>. Exceptions are
  values: a function that may raise returns \<open>error + 'a\<close>, with \<open>Inl\<close> for the
  exception.
\<close>

type_synonym str = "nat list"

definition u :: "string \<Rightarrow> str" where
  "u s = map of_char s"

datatype error = ValueError | UnicodeEncodeError | HTTPError | OtherError

text \<open>
  The code points of general category Nd (what \<^verbatim>\<open>\d\<close> matches in a \<^verbatim>\<open>str\<close> pattern and what
  \<^verbatim>\<open>int()\<close> accepts as a digit) come in runs of ten, \<open>0\<close> to \<open>9\<close>; the table lists the
  zero of every run (Unicode 14.0, the database of CPython 3.11).
\<close>

definition decimal_zeros :: "nat list" where
  "decimal_zeros =
    [0x30, 0x660, 0x6f0, 0x7c0, 0x966, 0x9e6, 0xa66, 0xae6, 0xb66, 0xbe6, 0xc66, 0xce6,
     0xd66, 0xde6, 0xe50, 0xed0, 0xf20, 0x1040, 0x1090, 0x17e0, 0x1810, 0x1946, 0x19d0,
     0x1a80, 0x1a90, 0x1b50, 0x1bb0, 0x1c40, 0x1c50, 0xa620, 0xa8d0, 0xa900, 0xa9d0,
     0xa9f0, 0xaa50, 0xabf0, 0xff10, 0x104a0, 0x10d30, 0x11066, 0x110f0, 0x11136,
     0x111d0, 0x112f0, 0x11450, 0x114d0, 0x11650, 0x116c0, 0x11730, 0x118e0, 0x11950,
     0x11c50, 0x11d50, 0x11da0, 0x16a60, 0x16ac0, 0x16b50, 0x1d7ce, 0x1d7d8, 0x1d7e2,
     0x1d7ec, 0x1d7f6, 0x1e140, 0x1e2f0, 0x1e950, 0x1fbf0]"

definition decimal :: "nat \<Rightarrow> nat option" where
  "decimal c = (case filter (\<lambda>z. z \<le> c \<and> c < z + 10) decimal_zeros of
                  [] \<Rightarrow> None
                | z # _ \<Rightarrow> Some (c - z))"

definition is_decimal :: "nat \<Rightarrow> bool" where
  "is_decimal c = (decimal c \<noteq> None)"

text \<open>The further code points for which \<^verbatim>\<open>str.isdigit\<close> holds (superscripts, circled digits ...).\<close>

definition other_digit_ranges :: "(nat \<times> nat) list" where
  "other_digit_ranges =
    [(0xb2, 0xb3), (0xb9, 0xb9), (0x1369, 0x1371), (0x19da, 0x19da), (0x2070, 0x2070),
     (0x2074, 0x2079), (0x2080, 0x2089), (0x2460, 0x2468), (0x2474, 0x247c),
     (0x2488, 0x2490), (0x24ea, 0x24ea), (0x24f5, 0x24fd), (0x24ff, 0x24ff),
     (0x2776, 0x277e), (0x2780, 0x2788), (0x278a, 0x2792), (0x10a40, 0x10a43),
     (0x10e60, 0x10e68), (0x11052, 0x1105a), (0x1f100, 0x1f10a)]"

definition in_ranges :: "(nat \<times> nat) list \<Rightarrow> nat \<Rightarrow> bool" where
  "in_ranges rs c = list_ex (\<lambda>(lo, hi). lo \<le> c \<and> c \<le> hi) rs"

definition str_isdigit :: "str \<Rightarrow> bool" where
  "str_isdigit s = (s \<noteq> [] \<and> list_all (\<lambda>c. is_decimal c \<or> in_ranges other_digit_ranges c) s)"

text \<open>Whitespace in the sense of \<^verbatim>\<open>str.isspace\<close> and \<^verbatim>\<open>str.strip()\<close>.\<close>

definition space_ranges :: "(nat \<times> nat) list" where
  "space_ranges =
    [(9, 13), (28, 32), (133, 133), (160, 160), (5760, 5760), (8192, 8202),
     (8232, 8233), (8239, 8239), (8287, 8287), (12288, 12288)]"

definition is_space :: "nat \<Rightarrow> bool" where
  "is_space c = in_ranges space_ranges c"

definition rstrip_with :: "(nat \<Rightarrow> bool) \<Rightarrow> str \<Rightarrow> str" where
  "rstrip_with p s = rev (dropWhile p (rev s))"

definition strip :: "str \<Rightarrow> str" where
  "strip s = rstrip_with is_space (dropWhile is_space s)"

subsection \<open>\<^verbatim>\<open>int(s)\<close> and \<^verbatim>\<open>str(n)\<close>\<close>

text \<open>
  \<^verbatim>\<open>int(s)\<close> first maps the text to ASCII: a code point below 127 stays, any other
  whitespace becomes a blank, any other decimal digit becomes its ASCII digit, and
  anything else is invalid (written \<open>?\<close>). The ASCII text is then read as: blanks, an
  optional sign, digits with single underscores between them, blanks. Python integers
  are unbounded, so the value is an \<open>int\<close>; but the interpreter refuses, with
  \<^verbatim>\<open>ValueError\<close>, to read a literal of more than \<^verbatim>\<open>sys.get_int_max_str_digits()\<close> digits
  and to print an integer of more than that many digits. The script leaves the limit at
  its default, 4300; leading zeros count, the sign and the underscores do not.
\<close>

definition int_max_str_digits :: nat where
  "int_max_str_digits = 4300"

definition to_ascii_decimal :: "nat \<Rightarrow> nat" where
  "to_ascii_decimal c =
     (if c < 127 then c
      else if is_space c then 32
      else (case decimal c of Some d \<Rightarrow> 48 + d | None \<Rightarrow> 63))"

definition c_isspace :: "nat \<Rightarrow> bool" where
  "c_isspace c = (c = 32 \<or> (9 \<le> c \<and> c \<le> 13))"

definition ascii_digit :: "nat \<Rightarrow> bool" where
  "ascii_digit c = (48 \<le> c \<and> c \<le> 57)"

fun digits_body :: "str \<Rightarrow> bool" where
  "digits_body [] = False"
| "digits_body [c] = ascii_digit c"
| "digits_body (c # d # r) =
     (ascii_digit c \<and> (if d = 95 then digits_body r else digits_body (d # r)))"

definition digits_value :: "str \<Rightarrow> nat" where
  "digits_value s = foldl (\<lambda>a c. 10 * a + (c - 48)) 0 (filter ascii_digit s)"

definition py_int :: "str \<Rightarrow> error + int" where
  "py_int s =
     (let t = rstrip_with c_isspace (dropWhile c_isspace (map to_ascii_decimal s));
          neg = (t \<noteq> [] \<and> hd t = 45);
          body = (if t \<noteq> [] \<and> (hd t = 45 \<or> hd t = 43) then tl t else t)
      in if digits_body body
         then (if int_max_str_digits < length (filter ascii_digit body) then Inl ValueError
               else Inr (if neg then - int (digits_value body) else int (digits_value body)))
         else Inl ValueError)"

fun nat_digits :: "nat \<Rightarrow> str" where
  "nat_digits n = (if n < 10 then [48 + n] else nat_digits (n div 10) @ [48 + n mod 10])"

declare nat_digits.simps [simp del]

text \<open>The decimal text of an integer, and \<^verbatim>\<open>str(i)\<close>, which gives it within the limit.\<close>

definition int_text :: "int \<Rightarrow> str" where
  "int_text i = (if i < 0 then 45 # nat_digits (nat (- i)) else nat_digits (nat i))"

definition py_str :: "int \<Rightarrow> error + str" where
  "py_str i =
     (if int_max_str_digits < length (nat_digits (nat \<bar>i\<bar>)) then Inl ValueError
      else Inr (int_text i))"


section \<open>The part of \<^verbatim>\<open>urllib.parse\<close> the scraper calls (CPython 3.11)\<close>

abbreviation ord :: "char \<Rightarrow> nat" where
  "ord \<equiv> of_char"

text \<open>
  Two checks of \<^verbatim>\<open>urlsplit\<close> consult data that is not modelled: the validation of a
  bracketed host by \<^verbatim>\<open>ipaddress\<close> (\<^verbatim>\<open>_check_bracketed_host\<close>) and the NFKC normal form of a
  non-ASCII network location (\<^verbatim>\<open>_checknetloc\<close>). They are parameters of the model.
\<close>

record pylib =
  bracketed_host_ok :: "str \<Rightarrow> bool"
  nfkc :: "str \<Rightarrow> str"

subsection \<open>String primitives\<close>

text \<open>\<^verbatim>\<open>s.partition(c)\<close>: the text before the first \<open>c\<close>, whether \<open>c\<close> occurs, the text after it.\<close>

definition partition_at :: "nat \<Rightarrow> str \<Rightarrow> str \<times> bool \<times> str" where
  "partition_at c s = (takeWhile (\<lambda>x. x \<noteq> c) s, c \<in> set s, drop 1 (dropWhile (\<lambda>x. x \<noteq> c) s))"

text \<open>\<^verbatim>\<open>s.split(c)\<close> for a one-character separator.\<close>

fun split_on :: "nat \<Rightarrow> str \<Rightarrow> str list" where
  "split_on c [] = [[]]"
| "split_on c (x # s) =
     (if x = c then [] # split_on c s
      else (case split_on c s of [] \<Rightarrow> [[x]] | p # ps \<Rightarrow> (x # p) # ps))"

text \<open>\<^verbatim>\<open>sep.join(parts)\<close>.\<close>

fun join :: "str \<Rightarrow> str list \<Rightarrow> str" where
  "join sep [] = []"
| "join sep [p] = p"
| "join sep (p # q # ps) = p @ sep @ join sep (q # ps)"

definition ascii_upper :: "nat \<Rightarrow> bool" where
  "ascii_upper c = (65 \<le> c \<and> c \<le> 90)"

definition ascii_lower :: "nat \<Rightarrow> bool" where
  "ascii_lower c = (97 \<le> c \<and> c \<le> 122)"

definition ascii_alpha :: "nat \<Rightarrow> bool" where
  "ascii_alpha c = (ascii_upper c \<or> ascii_lower c)"

definition lower :: "str \<Rightarrow> str" where
  "lower s = map (\<lambda>c. if ascii_upper c then c + 32 else c) s"

subsection \<open>UTF-8\<close>

text \<open>
  \<^verbatim>\<open>s.encode('utf-8', 'strict')\<close>: a lone surrogate cannot be encoded and raises
  \<^verbatim>\<open>UnicodeEncodeError\<close>; a \<^verbatim>\<open>str\<close> holds no code point above \<open>0x10FFFF\<close>.
\<close>

definition utf8_encode_cp :: "nat \<Rightarrow> error + nat list" where
  "utf8_encode_cp c =
     (if c < 0x80 then Inr [c]
      else if c < 0x800 then Inr [0xC0 + c div 64, 0x80 + c mod 64]
      else if 0xD800 \<le> c \<and> c \<le> 0xDFFF then Inl UnicodeEncodeError
      else if c < 0x10000 then Inr [0xE0 + c div 4096, 0x80 + (c div 64) mod 64, 0x80 + c mod 64]
      else if c < 0x110000
        then Inr [0xF0 + c div 262144, 0x80 + (c div 4096) mod 64, 0x80 + (c div 64) mod 64,
                  0x80 + c mod 64]
      else Inl UnicodeEncodeError)"

fun utf8_encode :: "str \<Rightarrow> error + nat list" where
  "utf8_encode [] = Inr []"
| "utf8_encode (c # s) =
     (case utf8_encode_cp c of
        Inl e \<Rightarrow> Inl e
      | Inr bs \<Rightarrow> (case utf8_encode s of Inl e \<Rightarrow> Inl e | Inr r \<Rightarrow> Inr (bs @ r)))"

text \<open>
  \<^verbatim>\<open>bs.decode('utf-8', 'replace')\<close>: every maximal ill-formed part becomes \<open>U+FFFD\<close>.
\<close>

definition cont :: "nat \<Rightarrow> bool" where
  "cont b = (0x80 \<le> b \<and> b \<le> 0xBF)"

definition second_ok :: "nat \<Rightarrow> nat \<Rightarrow> bool" where
  "second_ok b b1 =
     (if b = 0xE0 then 0xA0 \<le> b1 \<and> b1 \<le> 0xBF
      else if b = 0xED then 0x80 \<le> b1 \<and> b1 \<le> 0x9F
      else if b = 0xF0 then 0x90 \<le> b1 \<and> b1 \<le> 0xBF
      else if b = 0xF4 then 0x80 \<le> b1 \<and> b1 \<le> 0x8F
      else cont b1)"

fun utf8_decode :: "nat list \<Rightarrow> str" where
  "utf8_decode [] = []"
| "utf8_decode (b # bs) =
     (if b < 0x80 then b # utf8_decode bs
      else if 0xC2 \<le> b \<and> b \<le> 0xDF then
        (case bs of
           [] \<Rightarrow> [0xFFFD]
         | b1 # r \<Rightarrow>
             if cont b1 then ((b - 0xC0) * 64 + (b1 - 0x80)) # utf8_decode r
             else 0xFFFD # utf8_decode (b1 # r))
      else if 0xE0 \<le> b \<and> b \<le> 0xEF then
        (case bs of
           [] \<Rightarrow> [0xFFFD]
         | b1 # r \<Rightarrow>
             if \<not> second_ok b b1 then 0xFFFD # utf8_decode (b1 # r)
             else (case r of
                     [] \<Rightarrow> [0xFFFD]
                   | b2 # r2 \<Rightarrow>
                       if cont b2
                       then ((b - 0xE0) * 4096 + (b1 - 0x80) * 64 + (b2 - 0x80)) # utf8_decode r2
                       else 0xFFFD # utf8_decode (b2 # r2)))
      else if 0xF0 \<le> b \<and> b \<le> 0xF4 then
        (case bs of
           [] \<Rightarrow> [0xFFFD]
         | b1 # r \<Rightarrow>
             if \<not> second_ok b b1 then 0xFFFD # utf8_decode (b1 # r)
             else (case r of
                     [] \<Rightarrow> [0xFFFD]
                   | b2 # r2 \<Rightarrow>
                       if \<not> cont b2 then 0xFFFD # utf8_decode (b2 # r2)
                       else (case r2 of
                               [] \<Rightarrow> [0xFFFD]
                             | b3 # r3 \<Rightarrow>
                                 if cont b3
                                 then ((b - 0xF0) * 262144 + (b1 - 0x80) * 4096
                                       + (b2 - 0x80) * 64 + (b3 - 0x80)) # utf8_decode r3
                                 else 0xFFFD # utf8_decode (b3 # r3))))
      else 0xFFFD # utf8_decode bs)"

subsection \<open>Percent-encoding\<close>

definition hex_value :: "nat \<Rightarrow> nat option" where
  "hex_value c =
     (if ascii_digit c then Some (c - 48)
      else if 65 \<le> c \<and> c \<le> 70 then Some (c - 55)
      else if 97 \<le> c \<and> c \<le> 102 then Some (c - 87)
      else None)"

text \<open>\<^verbatim>\<open>unquote_to_bytes\<close> on ASCII text: \<open>%\<close> and two hexadecimal digits make one byte.\<close>

fun unquote_to_bytes :: "str \<Rightarrow> nat list" where
  "unquote_to_bytes (c # a # b # s) =
     (case (c = ord CHR ''%'', hex_value a, hex_value b) of
        (True, Some h, Some l) \<Rightarrow> (16 * h + l) # unquote_to_bytes s
      | _ \<Rightarrow> c # unquote_to_bytes (a # b # s))"
| "unquote_to_bytes s = s"

text \<open>
  \<^verbatim>\<open>unquote\<close>: a text without \<open>%\<close> is returned as it is; otherwise every maximal run of
  ASCII characters is percent-decoded and read as UTF-8 with replacement, and the
  characters between the runs are kept.
\<close>

fun unquote_runs :: "str \<Rightarrow> str \<Rightarrow> str" where
  "unquote_runs run [] = utf8_decode (unquote_to_bytes run)"
| "unquote_runs run (c # s) =
     (if c < 128 then unquote_runs (run @ [c]) s
      else utf8_decode (unquote_to_bytes run) @ c # unquote_runs [] s)"

definition unquote :: "str \<Rightarrow> str" where
  "unquote s = (if ord CHR ''%'' \<notin> set s then s else unquote_runs [] s)"

definition unquote_plus :: "str \<Rightarrow> str" where
  "unquote_plus s = unquote (map (\<lambda>c. if c = ord CHR ''+'' then ord CHR '' '' else c) s)"

definition always_safe :: "nat \<Rightarrow> bool" where
  "always_safe b = (ascii_alpha b \<or> ascii_digit b \<or> b = ord CHR ''_'' \<or> b = ord CHR ''.''
                    \<or> b = ord CHR ''-'' \<or> b = ord CHR ''~'')"

definition hex_digit :: "nat \<Rightarrow> nat" where
  "hex_digit n = (if n < 10 then 48 + n else 55 + n)"

text \<open>\<^verbatim>\<open>quote_plus(s)\<close> with the default \<^verbatim>\<open>safe=''\<close>: a blank becomes \<open>+\<close>.\<close>

definition quote_byte :: "nat \<Rightarrow> str" where
  "quote_byte b =
     (if b = ord CHR '' '' then [ord CHR ''+'']
      else if always_safe b then [b]
      else [ord CHR ''%'', hex_digit (b div 16), hex_digit (b mod 16)])"

definition quote_plus :: "str \<Rightarrow> error + str" where
  "quote_plus s = (case utf8_encode s of Inl e \<Rightarrow> Inl e | Inr bs \<Rightarrow> Inr (concat (map quote_byte bs)))"

subsection \<open>Query strings\<close>

text \<open>
  \<^verbatim>\<open>parse_qsl(qs)\<close> with the defaults: fields are separated by \<open>&\<close>; an empty field, a
  field without \<open>=\<close> and a field with an empty value are skipped.
\<close>

definition parse_field :: "str \<Rightarrow> (str \<times> str) list" where
  "parse_field name_value =
     (if name_value = [] then []
      else (case partition_at (ord CHR ''='') name_value of
              (name, has_eq, val) \<Rightarrow>
                if val = [] then [] else [(unquote_plus name, unquote_plus val)]))"

definition parse_qsl :: "str \<Rightarrow> (str \<times> str) list" where
  "parse_qsl qs = (if qs = [] then [] else concat (map parse_field (split_on (ord CHR ''&'') qs)))"

text \<open>
  A \<^verbatim>\<open>dict\<close> keeps its keys in insertion order: an association list with distinct keys.
  \<^verbatim>\<open>parse_qs\<close> appends a value to the list of a key it has seen and adds a new key at the
  end; \<^verbatim>\<open>d[k] = v\<close> replaces the value of a key in place and adds a new key at the end.
\<close>

type_synonym qdict = "(str \<times> str list) list"

definition dict_set :: "qdict \<Rightarrow> str \<Rightarrow> str list \<Rightarrow> qdict" where
  "dict_set d k v =
     (if k \<in> fst ` set d then map (\<lambda>(k', v'). if k' = k then (k', v) else (k', v')) d
      else d @ [(k, v)])"

definition dict_append :: "qdict \<Rightarrow> str \<times> str \<Rightarrow> qdict" where
  "dict_append d nv =
     (case nv of (name, val) \<Rightarrow>
        (case map_of d name of
           Some vs \<Rightarrow> dict_set d name (vs @ [val])
         | None \<Rightarrow> d @ [(name, [val])]))"

definition parse_qs :: "str \<Rightarrow> qdict" where
  "parse_qs qs = foldl dict_append [] (parse_qsl qs)"

text \<open>\<^verbatim>\<open>urlencode(query, doseq=True)\<close> for a dictionary of lists of texts.\<close>

definition encode_pair :: "str \<Rightarrow> str \<Rightarrow> error + str" where
  "encode_pair k v =
     (case quote_plus k of
        Inl e \<Rightarrow> Inl e
      | Inr k' \<Rightarrow> (case quote_plus v of Inl e \<Rightarrow> Inl e | Inr v' \<Rightarrow> Inr (k' @ [ord CHR ''=''] @ v')))"

fun sequence :: "(error + 'a) list \<Rightarrow> error + 'a list" where
  "sequence [] = Inr []"
| "sequence (x # xs) =
     (case x of
        Inl e \<Rightarrow> Inl e
      | Inr a \<Rightarrow> (case sequence xs of Inl e \<Rightarrow> Inl e | Inr as \<Rightarrow> Inr (a # as)))"

definition urlencode :: "qdict \<Rightarrow> error + str" where
  "urlencode query =
     (case sequence (concat (map (\<lambda>(k, vs). map (encode_pair k) vs) query)) of
        Inl e \<Rightarrow> Inl e
      | Inr l \<Rightarrow> Inr (join [ord CHR ''&''] l))"


subsection \<open>Splitting and joining URLs\<close>

record split_result =
  scheme :: str
  netloc :: str
  path :: str
  query :: str
  fragment :: str

record parse_result = split_result +
  params :: str

definition scheme_char :: "nat \<Rightarrow> bool" where
  "scheme_char c = (ascii_alpha c \<or> ascii_digit c \<or> c = ord CHR ''+'' \<or> c = ord CHR ''-''
                    \<or> c = ord CHR ''.'')"

text \<open>The scheme and the rest, when the text starts with a letter and a scheme name before \<open>:\<close>.\<close>

definition split_scheme :: "str \<Rightarrow> str \<times> str" where
  "split_scheme url =
     (case partition_at (ord CHR '':'') url of
        (before, has_colon, rest) \<Rightarrow>
          if has_colon \<and> before \<noteq> [] \<and> hd before < 128 \<and> ascii_alpha (hd before)
               \<and> list_all scheme_char before
          then (lower before, rest)
          else ([], url))"

definition netloc_delim :: "nat \<Rightarrow> bool" where
  "netloc_delim c = (c = ord CHR ''/'' \<or> c = ord CHR ''?'' \<or> c = ord CHR ''#'')"

definition splitnetloc :: "str \<Rightarrow> str \<times> str" where
  "splitnetloc url =
     (takeWhile (\<lambda>c. \<not> netloc_delim c) (drop 2 url),
      dropWhile (\<lambda>c. \<not> netloc_delim c) (drop 2 url))"

definition brackets_ok :: "'a pylib_scheme \<Rightarrow> str \<Rightarrow> bool" where
  "brackets_ok L nl =
     (let has_open = ord CHR ''['' \<in> set nl; has_close = ord CHR '']'' \<in> set nl
      in if has_open \<noteq> has_close then False
         else if has_open
           then bracketed_host_ok L
                  (fst (partition_at (ord CHR '']'')
                     (snd (snd (partition_at (ord CHR ''['') nl)))))
         else True)"

definition checknetloc :: "'a pylib_scheme \<Rightarrow> str \<Rightarrow> bool" where
  "checknetloc L nl =
     (if nl = [] \<or> list_all (\<lambda>c. c < 128) nl then True
      else let n = filter (\<lambda>c. c \<noteq> ord CHR ''@'' \<and> c \<noteq> ord CHR '':'' \<and> c \<noteq> ord CHR ''#''
                                 \<and> c \<noteq> ord CHR ''?'') nl;
               n2 = nfkc L n
           in n = n2 \<or> \<not> list_ex (\<lambda>c. c = ord CHR ''/'' \<or> c = ord CHR ''?'' \<or> c = ord CHR ''#''
                                       \<or> c = ord CHR ''@'' \<or> c = ord CHR '':'') n2)"

text \<open>
  \<^verbatim>\<open>urlsplit(url)\<close>: leading C0 controls and blanks are stripped, tabs and line breaks
  removed; then the scheme, the network location after \<open>//\<close>, the fragment after the
  first \<open>#\<close> and the query after the first \<open>?\<close> are cut off. A network location with an
  unmatched bracket, an invalid bracketed host or a forbidden character raises
  \<^verbatim>\<open>ValueError\<close>.
\<close>

definition urlsplit :: "'a pylib_scheme \<Rightarrow> str \<Rightarrow> error + split_result" where
  "urlsplit L url0 =
     (let url1 = filter (\<lambda>c. c \<noteq> 9 \<and> c \<noteq> 13 \<and> c \<noteq> 10) (dropWhile (\<lambda>c. c \<le> 32) url0);
          (sch, url2) = split_scheme url1;
          (nl, url3) = (if take 2 url2 = u ''//'' then splitnetloc url2 else ([], url2));
          (url4, _, frag) = partition_at (ord CHR ''#'') url3;
          (url5, _, q) = partition_at (ord CHR ''?'') url4
      in if take 2 url2 = u ''//'' \<and> \<not> brackets_ok L nl then Inl ValueError
         else if \<not> checknetloc L nl then Inl ValueError
         else Inr \<lparr>scheme = sch, netloc = nl, path = url5, query = q, fragment = frag\<rparr>)"

definition uses_params :: "str list" where
  "uses_params = map u ['''', ''ftp'', ''hdl'', ''prospero'', ''http'', ''imap'', ''https'',
     ''shttp'', ''rtsp'', ''rtsps'', ''rtspu'', ''sip'', ''sips'', ''mms'', ''sftp'', ''tel'']"

definition uses_netloc :: "str list" where
  "uses_netloc = map u ['''', ''ftp'', ''http'', ''gopher'', ''nntp'', ''telnet'', ''imap'',
     ''wais'', ''file'', ''mms'', ''https'', ''shttp'', ''snews'', ''prospero'', ''rtsp'',
     ''rtsps'', ''rtspu'', ''rsync'', ''svn'', ''svn+ssh'', ''sftp'', ''nfs'', ''git'',
     ''git+ssh'', ''ws'', ''wss'']"

text \<open>
  \<^verbatim>\<open>_splitparams(url)\<close>, called when the path holds a \<open>;\<close>: the parameters start at the
  first \<open>;\<close> of the last path segment.
\<close>

definition splitparams :: "str \<Rightarrow> str \<times> str" where
  "splitparams url =
     (if ord CHR ''/'' \<in> set url
      then (let last_seg = rev (takeWhile (\<lambda>c. c \<noteq> ord CHR ''/'') (rev url));
                front = take (length url - length last_seg) url
            in if ord CHR '';'' \<in> set last_seg
               then (front @ takeWhile (\<lambda>c. c \<noteq> ord CHR '';'') last_seg,
                     drop 1 (dropWhile (\<lambda>c. c \<noteq> ord CHR '';'') last_seg))
               else (url, []))
      else (takeWhile (\<lambda>c. c \<noteq> ord CHR '';'') url,
            drop 1 (dropWhile (\<lambda>c. c \<noteq> ord CHR '';'') url)))"

definition urlparse :: "'a pylib_scheme \<Rightarrow> str \<Rightarrow> error + parse_result" where
  "urlparse L url =
     (case urlsplit L url of
        Inl e \<Rightarrow> Inl e
      | Inr s \<Rightarrow>
          if scheme s \<in> set uses_params \<and> ord CHR '';'' \<in> set (path s)
          then (case splitparams (path s) of
                  (p, ps) \<Rightarrow> Inr (split_result.extend (s\<lparr>path := p\<rparr>) \<lparr>params = ps\<rparr>))
          else Inr (split_result.extend s \<lparr>params = []\<rparr>))"

definition urlunsplit :: "split_result \<Rightarrow> str" where
  "urlunsplit s =
     (let url1 = (if netloc s \<noteq> [] \<or> (scheme s \<noteq> [] \<and> scheme s \<in> set uses_netloc)
                     \<or> take 2 (path s) = u ''//''
                  then u ''//'' @ netloc s
                       @ (if path s \<noteq> [] \<and> take 1 (path s) \<noteq> u ''/'' then u ''/'' @ path s
                          else path s)
                  else path s);
          url2 = (if scheme s \<noteq> [] then scheme s @ u '':'' @ url1 else url1);
          url3 = (if query s \<noteq> [] then url2 @ u ''?'' @ query s else url2)
      in if fragment s \<noteq> [] then url3 @ u ''#'' @ fragment s else url3)"

definition urlunparse :: "parse_result \<Rightarrow> str" where
  "urlunparse p =
     urlunsplit \<lparr>scheme = scheme p, netloc = netloc p,
                 path = (if params p \<noteq> [] then path p @ u '';'' @ params p else path p),
                 query = query p, fragment = fragment p\<rparr>"

section \<open>The scraper's helpers\<close>

text \<open>
  \<^verbatim>\<open>clean_price(text)\<close>: \<^verbatim>\<open>None\<close> for a missing or empty text; otherwise
  \<^verbatim>\<open>re.sub(r"[^\d]", "", text)\<close> keeps the decimal digits, and the result is
  \<^verbatim>\<open>int(digits) if digits.isdigit() else None\<close>.
\<close>

definition re_sub_non_digits :: "str \<Rightarrow> str" where
  "re_sub_non_digits text = filter is_decimal text"

definition clean_price :: "str option \<Rightarrow> error + int option" where
  "clean_price text =
     (case text of
        None \<Rightarrow> Inr None
      | Some t \<Rightarrow>
          if t = [] then Inr None
          else let digits = re_sub_non_digits t
               in if str_isdigit digits
                  then (case py_int digits of Inl e \<Rightarrow> Inl e | Inr n \<Rightarrow> Inr (Some n))
                  else Inr None)"


text \<open>\<^verbatim>\<open>set_page_param(url, page)\<close>.\<close>

definition set_page_param :: "'a pylib_scheme \<Rightarrow> str \<Rightarrow> int \<Rightarrow> error + str" where
  "set_page_param L url page =
     (case urlparse L url of
        Inl e \<Rightarrow> Inl e
      | Inr parts \<Rightarrow>
          (case py_str page of
             Inl e \<Rightarrow> Inl e
           | Inr page_text \<Rightarrow>
               (case urlencode (dict_set (parse_qs (query parts)) (u ''page'') [page_text]) of
                  Inl e \<Rightarrow> Inl e
                | Inr q \<Rightarrow> Inr (urlunparse (parts\<lparr>query := q\<rparr>)))))"

text \<open>
  \<^verbatim>\<open>extract_item_id(href)\<close>: every exception is caught and gives \<^verbatim>\<open>None\<close>.
\<close>

definition extract_item_id :: "'a pylib_scheme \<Rightarrow> str option \<Rightarrow> str option" where
  "extract_item_id L href =
     (case href of
        None \<Rightarrow> None
      | Some h \<Rightarrow>
          if h = [] then None
          else (case urlparse L h of
                  Inl e \<Rightarrow> None
                | Inr p \<Rightarrow>
                    (case map_of (parse_qs (query p)) (u ''id'') of
                       None \<Rightarrow> None
                     | Some [] \<Rightarrow> None
                     | Some (v # _) \<Rightarrow> Some v)))"

text \<open>
  \<^verbatim>\<open>normalize_detail_url(u)\<close>. Its docstring: ``Use as a fallback dedupe key when item_id
  is missing. Strips fragment and sorts query params for stable comparison.''
\<close>

definition normalize_detail_url :: "'a pylib_scheme \<Rightarrow> str option \<Rightarrow> error + str option" where
  "normalize_detail_url L url =
     (case url of
        None \<Rightarrow> Inr None
      | Some x \<Rightarrow>
          if x = [] then Inr None
          else (case urlsplit L x of
                  Inl e \<Rightarrow> Inl e
                | Inr s \<Rightarrow>
                    (case urlencode (parse_qs (query s)) of
                       Inl e \<Rightarrow> Inl e
                     | Inr q_str \<Rightarrow>
                         Inr (Some (urlunsplit \<lparr>scheme = scheme s, netloc = netloc s,
                                path = path s, query = q_str, fragment = []\<rparr>)))))"

section \<open>Scraping one page\<close>

text \<open>
  What the selectors of \<^verbatim>\<open>scrape_page\<close> find in one \<^verbatim>\<open>div.list_item_block\<close>: the stripped
  text of the title, price and buy-out tags, the \<^verbatim>\<open>href\<close> of the detail link and the
  \<^verbatim>\<open>src\<close> of the image, each \<^verbatim>\<open>None\<close> when the tag or the attribute is missing.
\<close>

record block =
  title_text :: "str option"
  price_text :: "str option"
  buyout_text :: "str option"
  href :: "str option"
  img_src :: "str option"

record item =
  item_id :: "str option"
  title :: "str option"
  price_jpy :: "int option"
  buyout_jpy :: "int option"
  detail_url :: "str option"
  image_url :: "str option"
  source_page :: str

text \<open>
  The world outside the program: \<^verbatim>\<open>fetch\<close> is the outcome of the HTTP request for a page
  URL and of parsing the answer into blocks (or the exception raised on the way);
  \<^verbatim>\<open>urljoin\<close> is the library function of that name, which may raise \<^verbatim>\<open>ValueError\<close>.
\<close>

record world = pylib +
  urljoin :: "str \<Rightarrow> str \<Rightarrow> error + str"
  fetch :: "str \<Rightarrow> error + block list"

text \<open>Python truthiness of an optional text and of an optional integer.\<close>

definition truthy_str :: "str option \<Rightarrow> bool" where
  "truthy_str x = (case x of None \<Rightarrow> False | Some s \<Rightarrow> s \<noteq> [])"

definition truthy_int :: "int option \<Rightarrow> bool" where
  "truthy_int x = (case x of None \<Rightarrow> False | Some n \<Rightarrow> n \<noteq> 0)"

text \<open>\<^verbatim>\<open>urljoin(page_url, x) if x else None\<close>.\<close>

definition join_if :: "'a world_scheme \<Rightarrow> str \<Rightarrow> str option \<Rightarrow> error + str option" where
  "join_if w page_url x =
     (case x of
        None \<Rightarrow> Inr None
      | Some s \<Rightarrow>
          if s = [] then Inr None
          else (case urljoin w page_url s of Inl e \<Rightarrow> Inl e | Inr r \<Rightarrow> Inr (Some r)))"

text \<open>The body of the loop over the blocks: the item the block yields, if any.\<close>

definition scrape_block :: "'a world_scheme \<Rightarrow> str \<Rightarrow> block \<Rightarrow> error + item option" where
  "scrape_block w page_url b =
     (case clean_price (price_text b) of
        Inl e \<Rightarrow> Inl e
      | Inr price \<Rightarrow>
     (case clean_price (buyout_text b) of
        Inl e \<Rightarrow> Inl e
      | Inr buyout \<Rightarrow>
     (case join_if w page_url (href b) of
        Inl e \<Rightarrow> Inl e
      | Inr detail \<Rightarrow>
     (case join_if w page_url
             (case img_src b of
                None \<Rightarrow> None
              | Some s \<Rightarrow> if s = [] then None else Some (strip s)) of
        Inl e \<Rightarrow> Inl e
      | Inr img \<Rightarrow>
          if truthy_str (title_text b) \<or> truthy_int price \<or> truthy_int buyout \<or> truthy_str detail
          then Inr (Some \<lparr>item_id = extract_item_id w (href b), title = title_text b,
                          price_jpy = price, buyout_jpy = buyout, detail_url = detail,
                          image_url = img, source_page = page_url\<rparr>)
          else Inr None))))"

fun scrape_blocks :: "'a world_scheme \<Rightarrow> str \<Rightarrow> block list \<Rightarrow> error + item list" where
  "scrape_blocks w page_url [] = Inr []"
| "scrape_blocks w page_url (b # bs) =
     (case scrape_block w page_url b of
        Inl e \<Rightarrow> Inl e
      | Inr r \<Rightarrow>
          (case scrape_blocks w page_url bs of
             Inl e \<Rightarrow> Inl e
           | Inr items \<Rightarrow> Inr (case r of None \<Rightarrow> items | Some i \<Rightarrow> i # items)))"

definition scrape_page :: "'a world_scheme \<Rightarrow> str \<Rightarrow> error + item list" where
  "scrape_page w page_url =
     (case fetch w page_url of
        Inl e \<Rightarrow> Inl e
      | Inr blocks \<Rightarrow> scrape_blocks w page_url blocks)"

section \<open>The main loop\<close>

record out_row = item +
  image_preview :: str
  title_en :: str

datatype csv_line = Header "str list" | Row out_row

record config =
  start_url :: str
  pages :: "int option"
  until_empty :: bool
  out_xlsx :: bool

text \<open>
  The variables of \<^verbatim>\<open>main\<close> and what it has written: the lines of the CSV file (the header
  first), the rows of the optional worksheet with their 0-based row number, and the
  pages announced by ``Fetching page ...''.
\<close>

record state =
  seen_item_ids :: "str set"
  seen_detail_urls :: "str set"
  page :: int
  total_written :: int
  excel_row :: int
  xlsx_row0 :: int
  page_written :: int
  page_skipped :: int
  csv :: "csv_line list"
  xlsx :: "(int \<times> out_row) list"
  fetched :: "(int \<times> str) list"

definition IMG_PX :: int where
  "IMG_PX = 160"

definition fieldnames :: "str list" where
  "fieldnames = map u [''item_id'', ''title'', ''price_jpy'', ''buyout_jpy'', ''detail_url'',
     ''image_url'', ''image_preview'', ''source_page'', ''title_en'']"

text \<open>
  The two f-strings of the loop body. The row number they print counts the rows written so
  far, so it has far fewer digits than the limit at which printing an integer raises;
  its text is \<open>int_text\<close>.
\<close>

definition image_preview_formula :: "int \<Rightarrow> str" where
  "image_preview_formula r =
     u ''=IF(LEN(F'' @ int_text r @ u ''),IMAGE(F'' @ int_text r @ u '','' @ [34, 34] @ u '',3,''
       @ int_text IMG_PX @ u '','' @ int_text IMG_PX @ u ''),'' @ [34, 34] @ u '')''"

definition title_en_formula :: "int \<Rightarrow> str" where
  "title_en_formula r =
     u ''=TRANSLATE(B'' @ int_text r @ u '','' @ [34] @ u ''ja'' @ [34] @ u '','' @ [34] @ u ''en''
       @ [34] @ u '')''"

text \<open>\<^verbatim>\<open>iid = (row.get("item_id") or "").strip() or None\<close>.\<close>

definition iid_of :: "item \<Rightarrow> str option" where
  "iid_of row =
     (case item_id row of
        None \<Rightarrow> None
      | Some s \<Rightarrow> if strip s = [] then None else Some (strip s))"

definition is_duplicate :: "state \<Rightarrow> str option \<Rightarrow> str option \<Rightarrow> bool" where
  "is_duplicate s iid norm_url =
     (case iid of
        Some i \<Rightarrow> i \<in> seen_item_ids s
      | None \<Rightarrow> (case norm_url of
                   None \<Rightarrow> False
                 | Some n \<Rightarrow> n \<noteq> [] \<and> n \<in> seen_detail_urls s))"

definition mark_seen :: "str option \<Rightarrow> str option \<Rightarrow> state \<Rightarrow> state" where
  "mark_seen iid norm_url s =
     (case iid of
        Some i \<Rightarrow> s\<lparr>seen_item_ids := insert i (seen_item_ids s)\<rparr>
      | None \<Rightarrow> (case norm_url of
                   None \<Rightarrow> s
                 | Some n \<Rightarrow> if n \<noteq> [] then s\<lparr>seen_detail_urls := insert n (seen_detail_urls s)\<rparr>
                             else s))"

definition with_formulas :: "item \<Rightarrow> int \<Rightarrow> out_row" where
  "with_formulas row r =
     item.extend row \<lparr>image_preview = image_preview_formula r, title_en = title_en_formula r\<rparr>"

definition write_row :: "config \<Rightarrow> item \<Rightarrow> state \<Rightarrow> state" where
  "write_row cfg row s =
     s\<lparr>csv := csv s @ [Row (with_formulas row (excel_row s))],
       xlsx := (if out_xlsx cfg then xlsx s @ [(xlsx_row0 s, with_formulas row (xlsx_row0 s + 1))]
                else xlsx s),
       excel_row := excel_row s + 1,
       xlsx_row0 := xlsx_row0 s + 1,
       total_written := total_written s + 1,
       page_written := page_written s + 1\<rparr>"

text \<open>
  The body of the loop over the items of a page. \<^verbatim>\<open>normalize_detail_url\<close> is called outside
  any \<^verbatim>\<open>try\<close>, so its exception ends the run.
\<close>

definition process_row :: "'a pylib_scheme \<Rightarrow> config \<Rightarrow> item \<Rightarrow> state \<Rightarrow> error + state" where
  "process_row L cfg row s =
     (case normalize_detail_url L (detail_url row) of
        Inl e \<Rightarrow> Inl e
      | Inr norm_url \<Rightarrow>
          if is_duplicate s (iid_of row) norm_url
          then Inr (s\<lparr>page_skipped := page_skipped s + 1\<rparr>)
          else Inr (write_row cfg row (mark_seen (iid_of row) norm_url s)))"

fun process_items :: "'a pylib_scheme \<Rightarrow> config \<Rightarrow> item list \<Rightarrow> state \<Rightarrow> error + state" where
  "process_items L cfg [] s = Inr s"
| "process_items L cfg (row # rows) s =
     (case process_row L cfg row s of
        Inl e \<Rightarrow> Inl e
      | Inr s' \<Rightarrow> process_items L cfg rows s')"

text \<open>
  The \<^verbatim>\<open>while True\<close> loop. The result is \<open>None\<close> when the loop runs forever,
  \<open>Some (Inl e)\<close> when an exception leaves \<^verbatim>\<open>main\<close>, and \<open>Some (Inr s)\<close> when the loop is
  left by a \<^verbatim>\<open>break\<close>.
\<close>

definition budget_exhausted :: "config \<Rightarrow> int \<Rightarrow> int \<Rightarrow> bool" where
  "budget_exhausted cfg start_page p =
     (case pages cfg of None \<Rightarrow> False | Some n \<Rightarrow> p \<ge> start_page + n - 1)"

partial_function (option) main_loop ::
  "'a world_scheme \<Rightarrow> config \<Rightarrow> int \<Rightarrow> state \<Rightarrow> (error + state) option" where
  "main_loop w cfg start_page s =
     (case set_page_param w (start_url cfg) (page s) of
        Inl e \<Rightarrow> Some (Inl e)
      | Inr page_url \<Rightarrow>
          (case scrape_page w page_url of
             Inl e \<Rightarrow> Some (Inr (s\<lparr>fetched := fetched s @ [(page s, page_url)]\<rparr>))
           | Inr items \<Rightarrow>
               if items = [] \<and> until_empty cfg
               then Some (Inr (s\<lparr>fetched := fetched s @ [(page s, page_url)]\<rparr>))
               else (case process_items w cfg items
                            (s\<lparr>fetched := fetched s @ [(page s, page_url)],
                               page_written := 0, page_skipped := 0\<rparr>) of
                       Inl e \<Rightarrow> Some (Inl e)
                     | Inr s' \<Rightarrow>
                         if budget_exhausted cfg start_page (page s') then Some (Inr s')
                         else main_loop w cfg start_page (s'\<lparr>page := page s' + 1\<rparr>))))"

text \<open>The starting page: the \<^verbatim>\<open>page\<close> parameter of the start URL, 1 on any exception.\<close>

definition start_page_of :: "'a pylib_scheme \<Rightarrow> str \<Rightarrow> int" where
  "start_page_of L url =
     (case urlparse L url of
        Inl e \<Rightarrow> 1
      | Inr p \<Rightarrow>
          (case (case map_of (parse_qs (query p)) (u ''page'') of
                   None \<Rightarrow> [u ''1'']
                 | Some vs \<Rightarrow> vs) of
             [] \<Rightarrow> 1
           | v # _ \<Rightarrow> (case py_int v of Inl e \<Rightarrow> 1 | Inr n \<Rightarrow> n)))"

definition init_state :: "int \<Rightarrow> state" where
  "init_state p =
     \<lparr>seen_item_ids = {}, seen_detail_urls = {}, page = p, total_written = 0,
      excel_row = 2, xlsx_row0 = 1, page_written = 0, page_skipped = 0,
      csv = [Header fieldnames], xlsx = [], fetched = []\<rparr>"

definition main :: "'a world_scheme \<Rightarrow> config \<Rightarrow> (error + state) option" where
  "main w cfg =
     main_loop w cfg (start_page_of w (start_url cfg))
       (init_state (start_page_of w (start_url cfg)))"

text \<open>The number a string of decimal digits denotes, for stating what \<^verbatim>\<open>clean_price\<close> returns.\<close>

definition decimal_value :: "str \<Rightarrow> nat" where
  "decimal_value s = foldl (\<lambda>a c. 10 * a + (case decimal c of Some d \<Rightarrow> d | None \<Rightarrow> 0)) 0 s"

section \<open>Stating the properties of the output\<close>

text \<open>
  A written row refers to the spreadsheet row \<open>r\<close> when its two formula columns are the
  templates instantiated at \<open>r\<close>. The line with index \<open>k\<close> of the CSV file (counted from 0) is
  the spreadsheet row \<open>k + 1\<close>: the header is row 1, the first record row 2.
\<close>

definition row_refs :: "int \<Rightarrow> out_row \<Rightarrow> bool" where
  "row_refs r x = (image_preview x = image_preview_formula r \<and> title_en x = title_en_formula r)"

definition line_ok :: "nat \<Rightarrow> csv_line \<Rightarrow> bool" where
  "line_ok k l = (case l of Header h \<Rightarrow> k = 0 \<and> h = fieldnames | Row x \<Rightarrow> 1 \<le> k \<and> row_refs (int k + 1) x)"

definition rows_inv :: "state \<Rightarrow> bool" where
  "rows_inv s =
     (csv s \<noteq> [] \<and> excel_row s = int (length (csv s)) + 1 \<and> xlsx_row0 s = int (length (csv s))
      \<and> list_all (\<lambda>(k, l). line_ok k l) (enumerate 0 (csv s))
      \<and> list_all (\<lambda>(r0, x). row_refs (r0 + 1) x) (xlsx s))"

text \<open>
  A page number is processed without incident when its URL can be built, the page is fetched
  and parsed, it is not an empty page in stop-on-empty mode, and no detail URL of its items
  makes \<^verbatim>\<open>normalize_detail_url\<close> raise.
\<close>

definition is_Inr :: "'a + 'b \<Rightarrow> bool" where
  "is_Inr x = (case x of Inl a \<Rightarrow> False | Inr b \<Rightarrow> True)"


text \<open>
  What makes a block count in \<^verbatim>\<open>scrape_page\<close>, read off the block: a price text that
  denotes a number other than zero, and a detail link that is not empty and joins to a URL
  that is not empty.
\<close>

definition nonzero_price :: "str option \<Rightarrow> bool" where
  "nonzero_price text =
     (case text of None \<Rightarrow> False | Some t \<Rightarrow> decimal_value (filter is_decimal t) \<noteq> 0)"

definition has_detail :: "'a world_scheme \<Rightarrow> str \<Rightarrow> block \<Rightarrow> bool" where
  "has_detail w page_url b =
     (case href b of
        None \<Rightarrow> False
      | Some s \<Rightarrow> s \<noteq> [] \<and> (case urljoin w page_url s of Inl e \<Rightarrow> False | Inr d \<Rightarrow> d \<noteq> []))"

text \<open>
  The pairs of name and value that \<^verbatim>\<open>urlencode\<close> writes for a dictionary, in order, and
  the shape of the dictionaries \<^verbatim>\<open>parse_qs\<close> builds: distinct names, no empty list and no
  empty value.
\<close>

definition dict_items :: "qdict \<Rightarrow> (str \<times> str) list" where
  "dict_items d = concat (map (\<lambda>(k, vs). map (Pair k) vs) d)"

definition dict_ok :: "qdict \<Rightarrow> bool" where
  "dict_ok d = (distinct (map fst d) \<and> list_all (\<lambda>(k, vs). vs \<noteq> [] \<and> [] \<notin> set vs) d)"

section \<open>Concrete inputs for the examples\<close>

text \<open>
  A library instance for URLs whose network location is ASCII without brackets (the two
  parameters are then never consulted), and the records of the specification's
  end-to-end scenario.
\<close>

definition ascii_lib :: pylib where
  "ascii_lib = \<lparr>bracketed_host_ok = (\<lambda>h. False), nfkc = (\<lambda>s. s)\<rparr>"

definition cfg0 :: config where
  "cfg0 = \<lparr>start_url = u ''http://h/l?page=1'', pages = Some 2, until_empty = False,
           out_xlsx = True\<rparr>"

definition rowA :: item where
  "rowA = \<lparr>item_id = Some (u ''A''), title = Some (u ''Foo''), price_jpy = Some 500,
           buyout_jpy = None, detail_url = Some (u ''http://h/d?id=A''), image_url = None,
           source_page = u ''http://h/l?page=1''\<rparr>"

definition rowB :: item where
  "rowB = \<lparr>item_id = Some (u ''B''), title = Some (u ''Bar''), price_jpy = None,
           buyout_jpy = None, detail_url = Some (u ''http://h/d?id=B''), image_url = None,
           source_page = u ''http://h/l?page=1''\<rparr>"

text \<open>A record without identifier whose detail URL is that of \<open>rowA\<close>.\<close>

definition rowX :: item where
  "rowX = \<lparr>item_id = None, title = Some (u ''Foo again''), price_jpy = None,
           buyout_jpy = None, detail_url = Some (u ''http://h/d?id=A''), image_url = None,
           source_page = u ''http://h/l?page=1''\<rparr>"

text \<open>The two pages of the end-to-end scenario: \<open>A\<close> and \<open>B\<close>, then \<open>A\<close> again and \<open>C\<close>.\<close>

definition blockA :: block where
  "blockA = \<lparr>title_text = Some (u ''Foo''), price_text = Some (0xA5 # u ''500''),
             buyout_text = None, href = Some (u ''d?id=A''), img_src = None\<rparr>"

definition blockB :: block where
  "blockB = \<lparr>title_text = Some (u ''Bar''), price_text = None, buyout_text = None,
             href = Some (u ''d?id=B''), img_src = None\<rparr>"

definition blockC :: block where
  "blockC = \<lparr>title_text = Some (u ''Baz''), price_text = None, buyout_text = None,
             href = Some (u ''d?id=C''), img_src = None\<rparr>"

text \<open>The record the second page adds.\<close>

definition rowC :: item where
  "rowC = \<lparr>item_id = Some (u ''C''), title = Some (u ''Baz''), price_jpy = None,
           buyout_jpy = None, detail_url = Some (u ''http://h/d?id=C''), image_url = None,
           source_page = u ''http://h/l?page=2''\<rparr>"

text \<open>What the first block of the second page yields: \<open>A\<close> again.\<close>

definition rowA2 :: item where
  "rowA2 = rowA\<lparr>source_page := u ''http://h/l?page=2''\<rparr>"

definition world0 :: world where
  "world0 =
     \<lparr>bracketed_host_ok = (\<lambda>h. False), nfkc = (\<lambda>s. s),
      urljoin = (\<lambda>base rel. Inr (u ''http://h/'' @ rel)),
      fetch = (\<lambda>url. if url = u ''http://h/l?page=1'' then Inr [blockA, blockB]
                      else if url = u ''http://h/l?page=2'' then Inr [blockA, blockC]
                      else Inl HTTPError)\<rparr>"

text \<open>A block with nothing in it, and a block whose only content is the price \<open>0\<close>.\<close>

definition block_noise :: block where
  "block_noise = \<lparr>title_text = None, price_text = None, buyout_text = None, href = None,
                   img_src = None\<rparr>"

definition block_free :: block where
  "block_free = \<lparr>title_text = None, price_text = Some (0xA5 # u ''0''), buyout_text = None,
                  href = None, img_src = None\<rparr>"


definition world_down :: world where
  "world_down =
     \<lparr>bracketed_host_ok = (\<lambda>h. False), nfkc = (\<lambda>s. s),
      urljoin = (\<lambda>base rel. Inr (u ''http://h/'' @ rel)),
      fetch = (\<lambda>url. Inl HTTPError)\<rparr>"



text \<open>The run on the two pages: \<open>A\<close> and \<open>B\<close> from page 1, \<open>A\<close> skipped and \<open>C\<close> from page 2.\<close>

definition after_page_1 :: state where
  "after_page_1 =
     \<lparr>seen_item_ids = {u ''A'', u ''B''}, seen_detail_urls = {}, page = 1, total_written = 2,
      excel_row = 4, xlsx_row0 = 3, page_written = 2, page_skipped = 0,
      csv = [Header fieldnames, Row (with_formulas rowA 2), Row (with_formulas rowB 3)],
      xlsx = [(1, with_formulas rowA 2), (2, with_formulas rowB 3)],
      fetched = [(1, u ''http://h/l?page=1'')]\<rparr>"

definition after_page_2 :: state where
  "after_page_2 =
     \<lparr>seen_item_ids = {u ''A'', u ''B'', u ''C''}, seen_detail_urls = {}, page = 2,
      total_written = 3, excel_row = 5, xlsx_row0 = 4, page_written = 1, page_skipped = 1,
      csv = [Header fieldnames, Row (with_formulas rowA 2), Row (with_formulas rowB 3),
             Row (with_formulas rowC 4)],
      xlsx = [(1, with_formulas rowA 2), (2, with_formulas rowB 3), (3, with_formulas rowC 4)],
      fetched = [(1, u ''http://h/l?page=1''), (2, u ''http://h/l?page=2'')]\<rparr>"


(*PROOFS*)
section \<open>Properties\<close>

subsection \<open>Price parsing\<close>

lemma decimal_None_iff: "decimal c = None \<longleftrightarrow> (\<forall>z \<in> set decimal_zeros. \<not> (z \<le> c \<and> c < z + 10))"
proof -
  have "decimal c = None \<longleftrightarrow> filter (\<lambda>z. z \<le> c \<and> c < z + 10) decimal_zeros = []"
    by (simp add: decimal_def split: list.splits)
  then show ?thesis by (simp add: filter_empty_conv)
qed

lemma decimal_SomeD: "decimal c = Some d \<Longrightarrow> \<exists>z \<in> set decimal_zeros. z \<le> c \<and> c < z + 10 \<and> d = c - z"
proof -
  assume a: "decimal c = Some d"
  then obtain z zs where f: "filter (\<lambda>z. z \<le> c \<and> c < z + 10) decimal_zeros = z # zs" and d: "d = c - z"
    by (auto simp: decimal_def split: list.splits)
  have "z \<in> set (filter (\<lambda>z. z \<le> c \<and> c < z + 10) decimal_zeros)"
    by (simp add: f)
  then show ?thesis using d by auto
qed

lemma decimal_lt_10: "decimal c = Some d \<Longrightarrow> d < 10"
  by (auto dest!: decimal_SomeD)

lemma zeros_gap: "list_all (\<lambda>z. z = 48 \<or> (137 \<le> z \<and> z + 10 \<le> 5760) \<or> (5760 < z \<and> z + 10 \<le> 8192) \<or> 12288 < z) decimal_zeros"
  unfolding decimal_zeros_def by simp

lemma zeros_cases: "z \<in> set decimal_zeros \<Longrightarrow> z = 48 \<or> (137 \<le> z \<and> z + 10 \<le> 5760) \<or> (5760 < z \<and> z + 10 \<le> 8192) \<or> 12288 < z"
  using zeros_gap by (simp add: list_all_iff)

lemma decimal_ascii: "decimal c = Some d \<Longrightarrow> c < 127 \<Longrightarrow> c = 48 + d"
proof -
  assume a: "decimal c = Some d" and c: "c < 127"
  from decimal_SomeD [OF a] obtain z where z: "z \<in> set decimal_zeros" "z \<le> c" "c < z + 10" "d = c - z"
    by blast
  from zeros_cases [OF z(1)] z c have "z = 48" by arith
  with z show ?thesis by simp
qed

lemma space_cases: "is_space c \<Longrightarrow> 127 \<le> c \<Longrightarrow> c = 133 \<or> c = 160 \<or> c = 5760 \<or> (8192 \<le> c \<and> c \<le> 12288)"
  by (auto simp: is_space_def in_ranges_def space_ranges_def)

lemma zeros_133: "list_all (\<lambda>z. z + 10 \<le> 133 \<or> 160 < z) decimal_zeros"
  unfolding decimal_zeros_def by simp

lemma space_not_decimal: "is_space c \<Longrightarrow> 127 \<le> c \<Longrightarrow> decimal c = None"
proof -
  assume s: "is_space c" and c: "127 \<le> c"
  note sc = space_cases [OF s c]
  show ?thesis
    unfolding decimal_None_iff
  proof
    fix z assume z: "z \<in> set decimal_zeros"
    from zeros_133 z have "z + 10 \<le> 133 \<or> 160 < z" by (simp add: list_all_iff)
    with zeros_cases [OF z] sc show "\<not> (z \<le> c \<and> c < z + 10)" by arith
  qed
qed


lemma to_ascii_decimal_digit: "decimal c = Some d \<Longrightarrow> to_ascii_decimal c = 48 + d"
  using decimal_ascii [of c d] space_not_decimal [of c]
  by (cases "c < 127") (auto simp: to_ascii_decimal_def)

lemma ascii_digit_to_ascii: "is_decimal c \<Longrightarrow> ascii_digit (to_ascii_decimal c)"
  using decimal_lt_10 [of c]
  by (auto simp: is_decimal_def ascii_digit_def to_ascii_decimal_digit)

lemma digits_body_all: "s \<noteq> [] \<Longrightarrow> list_all ascii_digit s \<Longrightarrow> digits_body s"
  by (induction s rule: digits_body.induct) (auto simp: ascii_digit_def)

lemma rstrip_with_id: "s \<noteq> [] \<Longrightarrow> \<not> p (last s) \<Longrightarrow> rstrip_with p s = s"
  by (cases s rule: rev_cases) (auto simp: rstrip_with_def)

lemma dropWhile_id: "s \<noteq> [] \<Longrightarrow> \<not> p (hd s) \<Longrightarrow> dropWhile p s = s"
  by (cases s) auto

lemma digit_not_space: "ascii_digit c \<Longrightarrow> \<not> c_isspace c \<and> c \<noteq> 45 \<and> c \<noteq> 43"
  by (auto simp: ascii_digit_def c_isspace_def)

lemma foldl_digits:
  "list_all is_decimal s \<Longrightarrow>
   foldl (\<lambda>a c. 10 * a + (c - 48)) a (filter ascii_digit (map to_ascii_decimal s)) =
   foldl (\<lambda>a c. 10 * a + (case decimal c of Some d \<Rightarrow> d | None \<Rightarrow> 0)) a s"
proof (induction s arbitrary: a)
  case Nil
  then show ?case by simp
next
  case (Cons c s)
  then obtain d where d: "decimal c = Some d" by (auto simp: is_decimal_def)
  with Cons show ?case
    using ascii_digit_to_ascii [of c] by (simp add: to_ascii_decimal_digit is_decimal_def)
qed

lemma py_int_decimals:
  assumes ne: "s \<noteq> []" and all: "list_all is_decimal s"
  shows "py_int s = (if int_max_str_digits < length s then Inl ValueError
                     else Inr (int (decimal_value s)))"
proof -
  let ?t = "map to_ascii_decimal s"
  have dig: "list_all ascii_digit ?t"
    using all by (simp add: list_all_iff ascii_digit_to_ascii)
  have tne: "?t \<noteq> []" using ne by simp
  have h: "ascii_digit (hd ?t)" using dig tne by (cases ?t) auto
  have l: "ascii_digit (last ?t)" using dig last_in_set [OF tne] by (auto simp: list_all_iff)
  have t1: "dropWhile c_isspace ?t = ?t"
    using tne h by (intro dropWhile_id) (auto dest: digit_not_space)
  have t2: "rstrip_with c_isspace ?t = ?t"
    using tne l by (intro rstrip_with_id) (auto dest: digit_not_space)
  have body: "digits_body ?t" using tne dig by (rule digits_body_all)
  have v: "digits_value ?t = decimal_value s"
    unfolding digits_value_def decimal_value_def using all by (rule foldl_digits)
  have "filter ascii_digit ?t = ?t" using dig by (simp only: filter_id_conv list_all_iff)
  then have "length (filter ascii_digit ?t) = length s" by (simp only: length_map)
  then have n: "length (filter (ascii_digit \<circ> to_ascii_decimal) s) = length s"
    by (simp add: filter_map)
  from digit_not_space [OF h] have sg: "hd ?t \<noteq> 45" "hd ?t \<noteq> 43" by auto
  show ?thesis
    unfolding py_int_def t1 t2 Let_def using body v sg n by simp
qed

lemma str_isdigit_decimals: "str_isdigit (filter is_decimal t) = (filter is_decimal t \<noteq> [])"
  by (auto simp: str_isdigit_def list_all_iff)

lemma clean_price_result:
  "clean_price None = Inr None \<and>
   clean_price (Some t) =
     (if filter is_decimal t = [] then Inr None
      else if int_max_str_digits < length (filter is_decimal t) then Inl ValueError
      else Inr (Some (int (decimal_value (filter is_decimal t)))))"
proof -
  have "list_all is_decimal (filter is_decimal t)" by (simp add: list_all_iff)
  then have "filter is_decimal t \<noteq> [] \<Longrightarrow>
      py_int (filter is_decimal t) =
        (if int_max_str_digits < length (filter is_decimal t) then Inl ValueError
         else Inr (int (decimal_value (filter is_decimal t))))"
    by (intro py_int_decimals)
  then show ?thesis
    by (cases "t = []") (auto simp: clean_price_def re_sub_non_digits_def str_isdigit_decimals Let_def)
qed

text \<open>
  C5, amended. Price parsing: a missing text gives \<^verbatim>\<open>None\<close>; otherwise every character
  that is not a decimal digit is dropped; the result is \<^verbatim>\<open>None\<close> when no digit remains (so
  also for the empty text); when at most 4300 digits remain it is the non-negative integer
  they denote, and nothing is raised; when more than 4300 digits remain \<^verbatim>\<open>int\<close> raises
  \<^verbatim>\<open>ValueError\<close>, and so does \<^verbatim>\<open>clean_price\<close>.
\<close>

theorem clean_price_spec:
  "clean_price None = Inr None \<and>
   clean_price (Some t) =
     (if filter is_decimal t = [] then Inr None
      else if int_max_str_digits < length (filter is_decimal t) then Inl ValueError
      else Inr (Some (int (decimal_value (filter is_decimal t)))))"
  by (rule clean_price_result)

lemma is_decimal_1: "is_decimal 49"
  by (simp add: is_decimal_def decimal_def decimal_zeros_def)

text \<open>C5 as stated fails: a price text of 4301 digits makes \<^verbatim>\<open>clean_price\<close> raise.\<close>

theorem clean_price_raises_counterexample:
  "clean_price (Some (replicate 4301 49)) = Inl ValueError"
  using clean_price_result [of "replicate 4301 49"]
  by (simp add: is_decimal_1 int_max_str_digits_def)

text \<open>The examples of the specification: \<^verbatim>\<open>"\<yen>1,200"\<close> gives 1200, \<^verbatim>\<open>"no digits"\<close> and \<^verbatim>\<open>""\<close> give \<^verbatim>\<open>None\<close>.\<close>

theorem clean_price_examples:
  "clean_price (Some (0xA5 # u ''1,200'')) = Inr (Some 1200) \<and>
   clean_price (Some (u ''no digits'')) = Inr None \<and>
   clean_price (Some (u '''')) = Inr None"
  using clean_price_spec [of "0xA5 # u ''1,200''"] clean_price_spec [of "u ''no digits''"]
    clean_price_spec [of "u ''''"]
  by (simp add: u_def is_decimal_def decimal_def decimal_zeros_def decimal_value_def
      int_max_str_digits_def)

subsection \<open>Evaluating the URL functions on concrete inputs\<close>

lemmas char_defs = ascii_alpha_def ascii_upper_def ascii_lower_def ascii_digit_def
lemmas quote_defs = quote_plus_def quote_byte_def always_safe_def hex_digit_def utf8_encode_cp_def
  char_defs
lemmas split_defs = urlsplit_def split_scheme_def partition_at_def splitnetloc_def netloc_delim_def
  brackets_ok_def checknetloc_def scheme_char_def lower_def Let_def char_defs
lemmas qs_defs = parse_qs_def parse_qsl_def parse_field_def partition_at_def unquote_plus_def
  unquote_def dict_append_def dict_set_def
lemmas encode_defs = urlencode_def encode_pair_def quote_defs

lemma normalize_A:
  "normalize_detail_url L (Some (u ''http://h/d?id=A'')) = Inr (Some (u ''http://h/d?id=A''))"
  by (simp add: normalize_detail_url_def split_defs qs_defs encode_defs urlunsplit_def u_def)

lemma normalize_B:
  "normalize_detail_url L (Some (u ''http://h/d?id=B'')) = Inr (Some (u ''http://h/d?id=B''))"
  by (simp add: normalize_detail_url_def split_defs qs_defs encode_defs urlunsplit_def u_def)

lemma strip_letter: "strip [c] = [c]" if "65 \<le> c" "c \<le> 90" for c
  using that by (auto simp: strip_def rstrip_with_def is_space_def in_ranges_def space_ranges_def)

lemma iid_A: "iid_of rowA = Some (u ''A'')" and iid_B: "iid_of rowB = Some (u ''B'')"
  and iid_X: "iid_of rowX = None"
  by (simp_all add: iid_of_def rowA_def rowB_def rowX_def u_def strip_letter)

subsection \<open>The ledger\<close>

lemma process_row_cases:
  assumes "process_row L cfg row s = Inr s'"
  obtains n where "normalize_detail_url L (detail_url row) = Inr n"
    and "is_duplicate s (iid_of row) n" and "s' = s\<lparr>page_skipped := page_skipped s + 1\<rparr>"
  | n where "normalize_detail_url L (detail_url row) = Inr n"
    and "\<not> is_duplicate s (iid_of row) n" and "s' = write_row cfg row (mark_seen (iid_of row) n s)"
  using assms by (auto simp: process_row_def split: sum.splits if_splits)

lemma seen_ids_write_row [simp]: "seen_item_ids (write_row cfg row s) = seen_item_ids s"
  and seen_urls_write_row [simp]: "seen_detail_urls (write_row cfg row s) = seen_detail_urls s"
  by (simp_all add: write_row_def)




lemma detail_A: "detail_url rowA = Some (u ''http://h/d?id=A'')"
  and detail_B: "detail_url rowB = Some (u ''http://h/d?id=B'')"
  and detail_X: "detail_url rowX = Some (u ''http://h/d?id=A'')"
  by (simp_all add: rowA_def rowB_def rowX_def)



lemma process_row_seen_urls:
  "process_row L cfg row s = Inr s' \<Longrightarrow>
   seen_detail_urls s' \<subseteq> seen_detail_urls s
     \<union> {n. iid_of row = None \<and> normalize_detail_url L (detail_url row) = Inr (Some n)}"
  by (erule process_row_cases) (auto simp: mark_seen_def split: option.splits if_splits)

lemma process_items_seen_urls:
  "process_items L cfg rows s = Inr s' \<Longrightarrow>
   seen_detail_urls s' \<subseteq> seen_detail_urls s
     \<union> {n. \<exists>r \<in> set rows. iid_of r = None \<and> normalize_detail_url L (detail_url r) = Inr (Some n)}"
proof (induction rows arbitrary: s)
  case Nil
  then show ?case by simp
next
  case (Cons row rows)
  then obtain s1 where 1: "process_row L cfg row s = Inr s1"
    and 2: "process_items L cfg rows s1 = Inr s'"
    by (auto split: sum.splits)
  from process_row_seen_urls [OF 1] Cons.IH [OF 2] show ?case by auto
qed

text \<open>
  C2. URL-fallback gap: admitting a candidate that has both a trimmed identifier and a
  normalized detail URL adds the identifier to the identifier set and leaves the URL set as
  it was. A later candidate without identifier whose normalized detail URL is the same (and
  that no identifier-less record has registered, before or in between) is therefore not a
  duplicate: it is written as the next row.
\<close>

theorem url_fallback_gap:
  assumes iid: "iid_of row = Some i"
    and novel: "i \<notin> seen_item_ids s"
    and norm: "normalize_detail_url L (detail_url row) = Inr (Some n)"
    and unseen: "n \<notin> seen_detail_urls s"
    and between: "process_items L cfg rows s1 = Inr s2"
    and others: "\<forall>r \<in> set rows. iid_of r \<noteq> None \<or> normalize_detail_url L (detail_url r) \<noteq> Inr (Some n)"
    and noid: "iid_of row' = None"
    and norm': "normalize_detail_url L (detail_url row') = Inr (Some n)"
    and first: "process_row L cfg row s = Inr s1"
  shows "seen_item_ids s1 = insert i (seen_item_ids s)
       \<and> seen_detail_urls s1 = seen_detail_urls s
       \<and> csv s1 = csv s @ [Row (with_formulas row (excel_row s))]
       \<and> \<not> is_duplicate s2 (iid_of row') (Some n)
       \<and> (\<exists>s3. process_row L cfg row' s2 = Inr s3
              \<and> csv s3 = csv s2 @ [Row (with_formulas row' (excel_row s2))]
              \<and> total_written s3 = total_written s2 + 1)"
proof -
  from first iid novel norm have s1: "s1 = write_row cfg row (mark_seen (Some i) (Some n) s)"
    by (auto elim!: process_row_cases simp: is_duplicate_def)
  then have a: "seen_item_ids s1 = insert i (seen_item_ids s)"
    and b: "seen_detail_urls s1 = seen_detail_urls s"
    and c: "csv s1 = csv s @ [Row (with_formulas row (excel_row s))]"
    by (simp_all add: mark_seen_def write_row_def)
  from process_items_seen_urls [OF between] others b unseen
  have "n \<notin> seen_detail_urls s2" by blast
  then have d: "\<not> is_duplicate s2 (iid_of row') (Some n)"
    by (simp add: is_duplicate_def noid)
  then have "process_row L cfg row' s2 = Inr (write_row cfg row' (mark_seen None (Some n) s2))"
    by (simp add: process_row_def norm' noid)
  moreover have "csv (write_row cfg row' (mark_seen None (Some n) s2))
      = csv s2 @ [Row (with_formulas row' (excel_row s2))]"
    and "total_written (write_row cfg row' (mark_seen None (Some n) s2)) = total_written s2 + 1"
    by (simp_all add: mark_seen_def write_row_def)
  ultimately show ?thesis using a b c d by simp
qed

text \<open>\<open>A\<close> with identifier and URL, then a record without identifier and with the same URL: both are written.\<close>

theorem url_fallback_gap_witness:
  "\<exists>s1 s3. process_row ascii_lib cfg0 rowA (init_state 1) = Inr s1
     \<and> seen_item_ids s1 = {u ''A''} \<and> seen_detail_urls s1 = {}
     \<and> process_row ascii_lib cfg0 rowX s1 = Inr s3
     \<and> csv s3 = [Header fieldnames, Row (with_formulas rowA 2), Row (with_formulas rowX 3)]"
proof -
  define s1 where "s1 = write_row cfg0 rowA (mark_seen (Some (u ''A'')) (Some (u ''http://h/d?id=A'')) (init_state 1))"
  have novel: "u ''A'' \<notin> seen_item_ids (init_state 1)"
    and unseen: "u ''http://h/d?id=A'' \<notin> seen_detail_urls (init_state 1)"
    by (simp_all add: init_state_def)
  have first: "process_row ascii_lib cfg0 rowA (init_state 1) = Inr s1"
    by (simp add: process_row_def detail_A normalize_A iid_A is_duplicate_def init_state_def s1_def)
  have between: "process_items ascii_lib cfg0 [] s1 = Inr s1" by simp
  have others: "\<forall>r \<in> set []. iid_of r \<noteq> None
      \<or> normalize_detail_url ascii_lib (detail_url r) \<noteq> Inr (Some (u ''http://h/d?id=A''))"
    by simp
  have nA: "normalize_detail_url ascii_lib (detail_url rowA) = Inr (Some (u ''http://h/d?id=A''))"
    and nX: "normalize_detail_url ascii_lib (detail_url rowX) = Inr (Some (u ''http://h/d?id=A''))"
    by (simp_all add: detail_A detail_X normalize_A)
  have csv1: "csv s1 = [Header fieldnames, Row (with_formulas rowA 2)]"
    and xr1: "excel_row s1 = 3"
    by (simp_all add: s1_def write_row_def mark_seen_def init_state_def)
  from url_fallback_gap [OF iid_A novel nA unseen between others iid_X nX first]
  obtain s3 where "seen_item_ids s1 = insert (u ''A'') (seen_item_ids (init_state 1))"
    and "seen_detail_urls s1 = seen_detail_urls (init_state 1)"
    and "process_row ascii_lib cfg0 rowX s1 = Inr s3"
    and "csv s3 = csv s1 @ [Row (with_formulas rowX (excel_row s1))]"
    by blast
  with first csv1 xr1 show ?thesis by (auto simp: init_state_def)
qed

subsection \<open>Rows and their formulas\<close>

lemma rows_inv_init: "rows_inv (init_state p)"
  by (simp add: rows_inv_def init_state_def line_ok_def)

lemma rows_inv_write_row:
  assumes "rows_inv s"
  shows "rows_inv (write_row cfg row s)"
proof -
  have r: "row_refs r (with_formulas row r)" for r
    by (simp add: row_refs_def with_formulas_def item.defs)
  from assms have "line_ok (length (csv s)) (Row (with_formulas row (excel_row s)))"
    by (cases "csv s") (auto simp: rows_inv_def line_ok_def r)
  with assms r show ?thesis
    by (auto simp: rows_inv_def write_row_def enumerate_append_eq)
qed

lemma rows_inv_frame:
  assumes "rows_inv s" "csv s' = csv s" "xlsx s' = xlsx s" "excel_row s' = excel_row s"
    "xlsx_row0 s' = xlsx_row0 s"
  shows "rows_inv s'"
  using assms by (simp add: rows_inv_def)

lemma rows_inv_process_row:
  "process_row L cfg row s = Inr s' \<Longrightarrow> rows_inv s \<Longrightarrow> rows_inv s'"
proof (erule process_row_cases)
  fix n assume "s' = s\<lparr>page_skipped := page_skipped s + 1\<rparr>" "rows_inv s"
  then show "rows_inv s'" by (simp add: rows_inv_def)
next
  fix n assume s': "s' = write_row cfg row (mark_seen (iid_of row) n s)" and inv: "rows_inv s"
  have "rows_inv (mark_seen (iid_of row) n s)"
    by (rule rows_inv_frame [OF inv]) (simp_all add: mark_seen_def split: option.splits)
  then show "rows_inv s'" unfolding s' by (rule rows_inv_write_row)
qed

lemma rows_inv_process_items:
  "process_items L cfg rows s = Inr s' \<Longrightarrow> rows_inv s \<Longrightarrow> rows_inv s'"
proof (induction rows arbitrary: s)
  case Nil
  then show ?case by simp
next
  case (Cons row rows)
  then obtain s1 where 1: "process_row L cfg row s = Inr s1"
    and 2: "process_items L cfg rows s1 = Inr s'"
    by (auto split: sum.splits)
  from Cons.IH [OF 2 rows_inv_process_row [OF 1 Cons.prems(2)]] show ?case .
qed

lemma main_loop_invariant:
  assumes run: "main_loop w cfg sp s = Some (Inr s')"
    and init: "I s"
    and log: "\<And>s url. I s \<Longrightarrow> I (s\<lparr>fetched := fetched s @ [(page s, url)]\<rparr>)"
    and reset: "\<And>s. I s \<Longrightarrow> I (s\<lparr>page_written := 0, page_skipped := 0\<rparr>)"
    and items: "\<And>items s s2. I s \<Longrightarrow> process_items w cfg items s = Inr s2 \<Longrightarrow> I s2"
    and step: "\<And>s. I s \<Longrightarrow> I (s\<lparr>page := page s + 1\<rparr>)"
  shows "I s'"
proof -
  have "w0 = w \<longrightarrow> cfg0 = cfg \<longrightarrow> I s0 \<longrightarrow> (\<forall>s'. r = Inr s' \<longrightarrow> I s')"
    if "main_loop w0 cfg0 sp0 s0 = Some r" for w0 cfg0 sp0 s0 r
  proof (rule main_loop.raw_induct
      [where P = "\<lambda>w0 cfg0 sp0 s0 r. w0 = w \<longrightarrow> cfg0 = cfg \<longrightarrow> I s0 \<longrightarrow> (\<forall>s'. r = Inr s' \<longrightarrow> I s')",
       OF _ that], goal_cases)
    case (1 loop w0 cfg0 sp s r)
    show ?case
    proof (intro impI allI)
      fix s'
      assume w0: "w0 = w" and cfg0: "cfg0 = cfg" and inv: "I s" and r: "r = Inr s'"
      note eq = "1"(2) [unfolded w0 cfg0 r]
      from eq obtain url where url: "set_page_param w (start_url cfg) (page s) = Inr url"
        by (auto split: sum.splits)
      let ?s0 = "s\<lparr>fetched := fetched s @ [(page s, url)]\<rparr>"
      have inv0: "I ?s0" using inv by (rule log)
      show "I s'"
      proof (cases "scrape_page w url")
        case (Inl e)
        with eq url inv0 show ?thesis by auto
      next
        case (Inr items)
        show ?thesis
        proof (cases "items = [] \<and> until_empty cfg")
          case True
          with eq url Inr inv0 show ?thesis by auto
        next
          case False
          let ?s1 = "s\<lparr>fetched := fetched s @ [(page s, url)], page_written := 0, page_skipped := 0\<rparr>"
          have "I (?s0\<lparr>page_written := 0, page_skipped := 0\<rparr>)" using inv0 by (rule reset)
          then have inv1: "I ?s1" by simp
          from eq url Inr False obtain s2 where s2: "process_items w cfg items ?s1 = Inr s2"
            by (auto split: sum.splits)
          have inv2: "I s2" by (rule items [OF inv1 s2])
          show ?thesis
          proof (cases "budget_exhausted cfg sp (page s2)")
            case True
            with eq url Inr False s2 inv2 show ?thesis by auto
          next
            case nb: False
            have inv3: "I (s2\<lparr>page := page s2 + 1\<rparr>)" using inv2 by (rule step)
            from eq url Inr False s2 nb
            have "loop w cfg sp (s2\<lparr>page := page s2 + 1\<rparr>) = Some (Inr s')" by auto
            from "1"(1) [OF this] inv3 show ?thesis by simp
          qed
        qed
      qed
    qed
  qed
  from this [OF run] init show ?thesis by simp
qed

lemma rows_inv_main_loop:
  assumes "main_loop w cfg sp s = Some (Inr s')" and "rows_inv s"
  shows "rows_inv s'"
  using assms
proof (rule main_loop_invariant)
  show "rows_inv (s\<lparr>fetched := fetched s @ [(page s, url)]\<rparr>)" if "rows_inv s" for s url
    using that by (simp add: rows_inv_def)
  show "rows_inv (s\<lparr>page_written := 0, page_skipped := 0\<rparr>)" if "rows_inv s" for s
    using that by (simp add: rows_inv_def)
  show "rows_inv s2" if "rows_inv s" "process_items w cfg items s = Inr s2" for items s s2
    using that(2,1) by (rule rows_inv_process_items)
  show "rows_inv (s\<lparr>page := page s + 1\<rparr>)" if "rows_inv s" for s
    using that by (simp add: rows_inv_def)
qed

lemma rows_inv_nth:
  assumes "rows_inv s" "k < length (csv s)" "csv s ! k = Row x"
  shows "1 \<le> k \<and> row_refs (int k + 1) x"
proof -
  from assms(1) have "\<forall>p \<in> set (enumerate 0 (csv s)). case p of (k, l) \<Rightarrow> line_ok k l"
    by (simp add: rows_inv_def list_all_iff)
  moreover from assms(2) have "(k, csv s ! k) \<in> set (enumerate 0 (csv s))"
    by (auto simp: in_set_enumerate_eq)
  ultimately have "line_ok k (csv s ! k)" by blast
  with assms(3) show ?thesis by (simp add: line_ok_def)
qed

text \<open>
  C8. Formula row references: when the run ends, the first line of the CSV file is the
  header, and every record written references its own position: the record on line \<open>k + 1\<close>
  of the file (the header being line 1, so \<open>k \<ge> 1\<close> and the first record is on line 2) has
  the image formula on cell \<open>F(k + 1)\<close> and the translation formula on cell \<open>B(k + 1)\<close>;
  in the worksheet the record on the 0-based row \<open>r0\<close> references the 1-based row
  \<open>r0 + 1\<close>. Skipped duplicates write no line, so they take no position.
\<close>

theorem formula_row_references:
  assumes "main w cfg = Some (Inr s')"
  shows "csv s' ! 0 = Header fieldnames
       \<and> (\<forall>k x. k < length (csv s') \<and> csv s' ! k = Row x \<longrightarrow>
             1 \<le> k \<and> image_preview x = image_preview_formula (int k + 1)
                   \<and> title_en x = title_en_formula (int k + 1))
       \<and> (\<forall>r0 y. (r0, y) \<in> set (xlsx s') \<longrightarrow>
             image_preview y = image_preview_formula (r0 + 1)
             \<and> title_en y = title_en_formula (r0 + 1))"
proof -
  from assms have inv: "rows_inv s'"
    unfolding main_def by (rule rows_inv_main_loop [OF _ rows_inv_init])
  then have ne: "csv s' \<noteq> []" by (simp add: rows_inv_def)
  from inv have "\<forall>p \<in> set (enumerate 0 (csv s')). case p of (k, l) \<Rightarrow> line_ok k l"
    by (simp add: rows_inv_def list_all_iff)
  moreover from ne have "(0, csv s' ! 0) \<in> set (enumerate 0 (csv s'))"
    by (auto simp: in_set_enumerate_eq)
  ultimately have "line_ok 0 (csv s' ! 0)" by blast
  then have h: "csv s' ! 0 = Header fieldnames"
    by (cases "csv s' ! 0") (simp_all add: line_ok_def)
  from inv have x: "(r0, y) \<in> set (xlsx s') \<Longrightarrow> row_refs (r0 + 1) y" for r0 y
    by (auto simp: rows_inv_def list_all_iff)
  from h rows_inv_nth [OF inv] x show ?thesis
    by (auto simp: row_refs_def)
qed

subsection \<open>Building page URLs\<close>

lemma in_uses_netloc_http: "u ''http'' \<in> set uses_netloc"
  by (simp add: uses_netloc_def u_def)

lemma urlsplit_start:
  "urlsplit L (u ''http://h/l?page='' @ [d]) =
     Inr \<lparr>scheme = u ''http'', netloc = u ''h'', path = u ''/l'', query = u ''page='' @ [d],
          fragment = []\<rparr>"
  if "48 \<le> d" "d \<le> 57"
  using that by (simp add: split_defs u_def)

lemma urlparse_start:
  "urlparse L (u ''http://h/l?page='' @ [d]) =
     Inr \<lparr>scheme = u ''http'', netloc = u ''h'', path = u ''/l'', query = u ''page='' @ [d],
          fragment = [], params = []\<rparr>"
  if "48 \<le> d" "d \<le> 57"
  by (simp add: urlparse_def urlsplit_start [OF that] split_result.defs) (simp add: u_def)

lemma parse_qs_page: "parse_qs (u ''page='' @ [d]) = [(u ''page'', [[d]])]"
  if "48 \<le> d" "d \<le> 57"
  using that by (simp add: qs_defs u_def)

lemma int_text_digit: "0 \<le> n \<Longrightarrow> n < 10 \<Longrightarrow> int_text n = [48 + nat n]"
  by (simp add: int_text_def nat_digits.simps)

lemma py_str_digit: "0 \<le> n \<Longrightarrow> n < 10 \<Longrightarrow> py_str n = Inr (int_text n)"
  by (simp add: py_str_def nat_digits.simps int_max_str_digits_def)

lemma urlencode_page: "0 \<le> n \<Longrightarrow> n < 10 \<Longrightarrow>
  urlencode [(u ''page'', [int_text n])] = Inr (u ''page='' @ int_text n)"
  by (auto simp: int_text_digit encode_defs u_def)

lemma set_page_param_start:
  "set_page_param L (u ''http://h/l?page='' @ [d]) n = Inr (u ''http://h/l?page='' @ int_text n)"
  if "48 \<le> d" "d \<le> 57" "0 \<le> n" "n < 10"
  using that(3,4)
  by (simp add: set_page_param_def urlparse_start [OF that(1,2)] parse_qs_page [OF that(1,2)]
      py_str_digit dict_set_def urlencode_page urlunparse_def urlunsplit_def in_uses_netloc_http)
     (simp add: u_def)

lemma py_int_digit: "py_int [d] = Inr (int d - 48)" if "48 \<le> d" "d \<le> 57"
  using that
  by (simp add: py_int_def to_ascii_decimal_def c_isspace_def rstrip_with_def ascii_digit_def
      digits_value_def int_max_str_digits_def Let_def)

lemma start_page_of_start:
  "start_page_of L (u ''http://h/l?page='' @ [d]) = int d - 48" if "48 \<le> d" "d \<le> 57"
  by (simp add: start_page_of_def urlparse_start [OF that] parse_qs_page [OF that]
      py_int_digit [OF that])

subsection \<open>Stopping\<close>

lemma main_loop_fetch_error:
  assumes "set_page_param w (start_url cfg) (page s) = Inr page_url"
    and "scrape_page w page_url = Inl e"
  shows "main_loop w cfg sp s = Some (Inr (s\<lparr>fetched := fetched s @ [(page s, page_url)]\<rparr>))"
  by (subst main_loop.simps) (simp add: assms)


text \<open>
  C9. Stop on a fetch or parse error: when fetching or parsing the page the cursor is at
  fails with any exception, the loop ends there with a regular result (not an exception):
  that page is the last one requested, and the lines of the CSV file, the worksheet rows and
  the count of written records are exactly those written before.
\<close>

theorem stop_on_fetch_error:
  assumes "set_page_param w (start_url cfg) (page s) = Inr page_url"
    and "scrape_page w page_url = Inl e"
  shows "\<exists>s'. main_loop w cfg sp s = Some (Inr s')
     \<and> csv s' = csv s \<and> xlsx s' = xlsx s \<and> total_written s' = total_written s
     \<and> page s' = page s \<and> fetched s' = fetched s @ [(page s, page_url)]"
  using main_loop_fetch_error [OF assms] by simp


subsection \<open>The page budget\<close>






subsection \<open>The example sites\<close>

lemma url_page_digit: "u ''http://h/l?page='' @ [49] = u ''http://h/l?page=1''"
  "u ''http://h/l?page='' @ [50] = u ''http://h/l?page=2''"
  "u ''http://h/l?page='' @ [51] = u ''http://h/l?page=3''"
  by (simp_all add: u_def)

lemma page_url_from_1:
  "0 \<le> n \<Longrightarrow> n < 10 \<Longrightarrow>
   set_page_param L (u ''http://h/l?page=1'') n = Inr (u ''http://h/l?page='' @ int_text n)"
  using set_page_param_start [of 49 n L] by (simp add: url_page_digit)


lemma start_page_1: "start_page_of L (u ''http://h/l?page=1'') = 1"
  using start_page_of_start [of 49 L] by (simp add: url_page_digit)



lemma scrape_page_down: "scrape_page world_down url = Inl HTTPError"
  by (simp add: scrape_page_def world_down_def)


text \<open>A site that is down: the run requests page 1 and ends with the header alone.\<close>

theorem stop_on_fetch_error_witness:
  "\<exists>s'. main_loop world_down cfg0 1 (init_state 1) = Some (Inr s')
     \<and> csv s' = [Header fieldnames] \<and> xlsx s' = [] \<and> total_written s' = 0
     \<and> page s' = 1 \<and> fetched s' = [(1, u ''http://h/l?page=1'')]"
proof -
  have url: "set_page_param world_down (start_url cfg0) (page (init_state 1))
      = Inr (u ''http://h/l?page=1'')"
    by (simp add: cfg0_def init_state_def page_url_from_1 int_text_digit url_page_digit)
  from stop_on_fetch_error [OF url scrape_page_down, where sp = 1]
  show ?thesis by (simp add: init_state_def)
qed




subsection \<open>The end-to-end scenario\<close>

lemma urlsplit_rel:
  "urlsplit L (u ''d?id='' @ [c]) =
     Inr \<lparr>scheme = [], netloc = [], path = u ''d'', query = u ''id='' @ [c], fragment = []\<rparr>"
  if "65 \<le> c" "c \<le> 90"
  using that by (simp add: split_defs u_def)

lemma parse_qs_id: "parse_qs (u ''id='' @ [c]) = [(u ''id'', [[c]])]" if "65 \<le> c" "c \<le> 90"
  using that by (simp add: qs_defs u_def)

lemma extract_item_id_rel:
  "extract_item_id L (Some (u ''d?id='' @ [c])) = Some [c]" if "65 \<le> c" "c \<le> 90"
  by (simp add: extract_item_id_def urlparse_def urlsplit_rel [OF that] parse_qs_id [OF that]
      split_result.defs)
     (simp add: u_def)

lemma clean_price_500: "clean_price (Some (0xA5 # u ''500'')) = Inr (Some 500)"
  using clean_price_result [of "0xA5 # u ''500''"]
  by (simp add: u_def is_decimal_def decimal_def decimal_zeros_def decimal_value_def
      int_max_str_digits_def)

lemma clean_price_None: "clean_price None = Inr None"
  using clean_price_result [of "[]"] by simp

lemma join_if_world0:
  "join_if world0 url None = Inr None"
  "join_if world0 url (Some (u ''d?id='' @ [c])) = Inr (Some (u ''http://h/d?id='' @ [c]))"
  by (simp_all add: join_if_def world0_def u_def)

lemma rel_letter: "u ''d?id=A'' = u ''d?id='' @ [65]" "u ''d?id=B'' = u ''d?id='' @ [66]"
  "u ''d?id=C'' = u ''d?id='' @ [67]"
  by (simp_all add: u_def)

lemma scrape_block_A:
  "scrape_block world0 url blockA = Inr (Some (rowA\<lparr>source_page := url\<rparr>))"
  by (simp add: scrape_block_def blockA_def clean_price_500 clean_price_None rel_letter
      join_if_world0 extract_item_id_rel truthy_str_def rowA_def)
     (simp add: u_def)

lemma scrape_block_B:
  "scrape_block world0 url blockB = Inr (Some (rowB\<lparr>source_page := url\<rparr>))"
  by (simp add: scrape_block_def blockB_def clean_price_None rel_letter
      join_if_world0 extract_item_id_rel truthy_str_def rowB_def)
     (simp add: u_def)

lemma scrape_block_C:
  "scrape_block world0 url blockC = Inr (Some (rowC\<lparr>source_page := url\<rparr>))"
  by (simp add: scrape_block_def blockC_def clean_price_None rel_letter
      join_if_world0 extract_item_id_rel truthy_str_def rowC_def)
     (simp add: u_def)

lemma page_1_neq_2: "u ''http://h/l?page=2'' \<noteq> u ''http://h/l?page=1''"
  by (simp add: u_def)

lemma scrape_page_1: "scrape_page world0 (u ''http://h/l?page=1'') = Inr [rowA, rowB]"
proof -
  have "fetch world0 (u ''http://h/l?page=1'') = Inr [blockA, blockB]"
    by (simp add: world0_def)
  then show ?thesis
    by (simp add: scrape_page_def scrape_block_A scrape_block_B) (simp add: rowA_def rowB_def)
qed

lemma scrape_page_2: "scrape_page world0 (u ''http://h/l?page=2'') = Inr [rowA2, rowC]"
proof -
  have "fetch world0 (u ''http://h/l?page=2'') = Inr [blockA, blockC]"
    using page_1_neq_2 by (simp add: world0_def)
  then show ?thesis
    by (simp add: scrape_page_def scrape_block_A scrape_block_C) (simp add: rowA2_def rowC_def)
qed

lemma normalize_C:
  "normalize_detail_url L (Some (u ''http://h/d?id=C'')) = Inr (Some (u ''http://h/d?id=C''))"
  by (simp add: normalize_detail_url_def split_defs qs_defs encode_defs urlunsplit_def u_def)

lemma iid_A2: "iid_of rowA2 = Some (u ''A'')" and iid_C: "iid_of rowC = Some (u ''C'')"
  by (simp_all add: iid_of_def rowA2_def rowA_def rowC_def u_def strip_letter)

lemma detail_A2: "detail_url rowA2 = Some (u ''http://h/d?id=A'')"
  and detail_C: "detail_url rowC = Some (u ''http://h/d?id=C'')"
  by (simp_all add: rowA2_def rowA_def rowC_def)

lemma letters_distinct: "u ''C'' \<noteq> u ''A''" "u ''C'' \<noteq> u ''B''" "u ''B'' \<noteq> u ''A''"
  by (simp_all add: u_def)

lemma process_row_new:
  assumes "normalize_detail_url L (detail_url row) = Inr n" and "iid_of row = Some i"
    and "i \<notin> seen_item_ids s"
  shows "process_row L cfg row s
    = Inr (write_row cfg row (s\<lparr>seen_item_ids := insert i (seen_item_ids s)\<rparr>))"
  using assms by (simp add: process_row_def is_duplicate_def mark_seen_def)

lemma process_row_known:
  assumes "normalize_detail_url L (detail_url row) = Inr n" and "iid_of row = Some i"
    and "i \<in> seen_item_ids s"
  shows "process_row L cfg row s = Inr (s\<lparr>page_skipped := page_skipped s + 1\<rparr>)"
  using assms by (simp add: process_row_def is_duplicate_def)

lemma main_loop_continue:
  assumes "set_page_param w (start_url cfg) (page s) = Inr url"
    and "scrape_page w url = Inr items" and "items \<noteq> []"
    and "process_items w cfg items
           (s\<lparr>fetched := fetched s @ [(page s, url)], page_written := 0, page_skipped := 0\<rparr>)
         = Inr s2"
    and "\<not> budget_exhausted cfg sp (page s2)"
  shows "main_loop w cfg sp s = main_loop w cfg sp (s2\<lparr>page := page s2 + 1\<rparr>)"
  by (subst main_loop.simps) (simp add: assms)

lemma main_loop_last:
  assumes "set_page_param w (start_url cfg) (page s) = Inr url"
    and "scrape_page w url = Inr items" and "items \<noteq> []"
    and "process_items w cfg items
           (s\<lparr>fetched := fetched s @ [(page s, url)], page_written := 0, page_skipped := 0\<rparr>)
         = Inr s2"
    and "budget_exhausted cfg sp (page s2)"
  shows "main_loop w cfg sp s = Some (Inr s2)"
  by (subst main_loop.simps) (simp add: assms)

lemma items_page_1:
  "process_items world0 cfg0 [rowA, rowB]
     ((init_state 1)\<lparr>fetched := fetched (init_state 1) @ [(page (init_state 1), u ''http://h/l?page=1'')],
                      page_written := 0, page_skipped := 0\<rparr>)
   = Inr after_page_1"
proof -
  let ?s = "(init_state 1)\<lparr>fetched := fetched (init_state 1) @ [(page (init_state 1), u ''http://h/l?page=1'')],
                      page_written := 0, page_skipped := 0\<rparr>"
  have a: "process_row world0 cfg0 rowA ?s
      = Inr (write_row cfg0 rowA (?s\<lparr>seen_item_ids := insert (u ''A'') (seen_item_ids ?s)\<rparr>))"
    by (rule process_row_new [OF _ iid_A]) (simp_all add: detail_A normalize_A init_state_def)
  let ?s1 = "write_row cfg0 rowA (?s\<lparr>seen_item_ids := insert (u ''A'') (seen_item_ids ?s)\<rparr>)"
  have ids1: "seen_item_ids ?s1 = {u ''A''}" by (simp add: init_state_def)
  have b: "process_row world0 cfg0 rowB ?s1
      = Inr (write_row cfg0 rowB (?s1\<lparr>seen_item_ids := insert (u ''B'') (seen_item_ids ?s1)\<rparr>))"
    by (rule process_row_new [OF _ iid_B]) (simp_all only: detail_B normalize_B ids1, simp add: letters_distinct)
  have "write_row cfg0 rowB (?s1\<lparr>seen_item_ids := insert (u ''B'') (seen_item_ids ?s1)\<rparr>) = after_page_1"
    by (simp add: write_row_def init_state_def after_page_1_def cfg0_def insert_commute)
  with a b show ?thesis by simp
qed

lemma items_page_2:
  "process_items world0 cfg0 [rowA2, rowC]
     (after_page_1\<lparr>page := 2, fetched := fetched after_page_1 @ [(2, u ''http://h/l?page=2'')],
                    page_written := 0, page_skipped := 0\<rparr>)
   = Inr after_page_2"
proof -
  let ?s = "after_page_1\<lparr>page := 2, fetched := fetched after_page_1 @ [(2, u ''http://h/l?page=2'')],
                    page_written := 0, page_skipped := 0\<rparr>"
  have a: "process_row world0 cfg0 rowA2 ?s = Inr (?s\<lparr>page_skipped := page_skipped ?s + 1\<rparr>)"
    by (rule process_row_known [OF _ iid_A2]) (simp_all add: detail_A2 normalize_A after_page_1_def)
  let ?s1 = "?s\<lparr>page_skipped := page_skipped ?s + 1\<rparr>"
  have ids1: "seen_item_ids ?s1 = {u ''A'', u ''B''}" by (simp add: after_page_1_def)
  have c: "process_row world0 cfg0 rowC ?s1
      = Inr (write_row cfg0 rowC (?s1\<lparr>seen_item_ids := insert (u ''C'') (seen_item_ids ?s1)\<rparr>))"
    by (rule process_row_new [OF _ iid_C]) (simp_all only: detail_C normalize_C ids1, simp add: letters_distinct)
  have "write_row cfg0 rowC (?s1\<lparr>seen_item_ids := insert (u ''C'') (seen_item_ids ?s1)\<rparr>) = after_page_2"
    by (simp add: write_row_def after_page_1_def after_page_2_def cfg0_def) (auto simp: insert_commute)
  with a c show ?thesis by simp
qed

lemma main_scenario: "main world0 cfg0 = Some (Inr after_page_2)"
proof -
  have sp: "start_page_of world0 (start_url cfg0) = 1"
    by (simp add: cfg0_def start_page_1)
  have url1: "set_page_param world0 (start_url cfg0) (page (init_state 1))
      = Inr (u ''http://h/l?page=1'')"
    by (simp add: cfg0_def init_state_def page_url_from_1 int_text_digit url_page_digit)
  have nb: "\<not> budget_exhausted cfg0 1 (page after_page_1)"
    by (simp add: budget_exhausted_def cfg0_def after_page_1_def)
  have 1: "main_loop world0 cfg0 1 (init_state 1)
      = main_loop world0 cfg0 1 (after_page_1\<lparr>page := page after_page_1 + 1\<rparr>)"
    by (rule main_loop_continue [OF url1 scrape_page_1 _ items_page_1 nb]) simp
  let ?s = "after_page_1\<lparr>page := page after_page_1 + 1\<rparr>"
  have url2: "set_page_param world0 (start_url cfg0) (page ?s) = Inr (u ''http://h/l?page=2'')"
    by (simp add: cfg0_def after_page_1_def page_url_from_1 int_text_digit url_page_digit)
  have items: "process_items world0 cfg0 [rowA2, rowC]
      (?s\<lparr>fetched := fetched ?s @ [(page ?s, u ''http://h/l?page=2'')],
          page_written := 0, page_skipped := 0\<rparr>) = Inr after_page_2"
    using items_page_2 by (simp add: after_page_1_def)
  have b: "budget_exhausted cfg0 1 (page after_page_2)"
    by (simp add: budget_exhausted_def cfg0_def after_page_2_def)
  have 2: "main_loop world0 cfg0 1 ?s = Some (Inr after_page_2)"
    by (rule main_loop_last [OF url2 scrape_page_2 _ items b]) simp
  from 1 2 show ?thesis by (simp add: main_def sp)
qed

lemma int_text_160: "int_text IMG_PX = u ''160''"
  by (simp add: IMG_PX_def int_text_def nat_digits.simps u_def)

text \<open>
  The scenario of the specification: \<open>A\<close> and \<open>B\<close> on page 1, \<open>A\<close> again and \<open>C\<close> on page 2.
  The file holds the three records in this order, with formulas on rows 2, 3 and 4.
\<close>

theorem formula_row_references_witness:
  "main world0 cfg0 = Some (Inr after_page_2)
   \<and> map (\<lambda>l. case l of Header h \<Rightarrow> None | Row x \<Rightarrow> item_id x) (csv after_page_2)
       = [None, Some (u ''A''), Some (u ''B''), Some (u ''C'')]
   \<and> csv after_page_2 ! 0 = Header fieldnames
   \<and> map (\<lambda>l. case l of Header h \<Rightarrow> [] | Row x \<Rightarrow> title_en x) (tl (csv after_page_2))
       = [u ''=TRANSLATE(B2,'' @ [34] @ u ''ja'' @ [34] @ u '','' @ [34] @ u ''en'' @ [34] @ u '')'',
          u ''=TRANSLATE(B3,'' @ [34] @ u ''ja'' @ [34] @ u '','' @ [34] @ u ''en'' @ [34] @ u '')'',
          u ''=TRANSLATE(B4,'' @ [34] @ u ''ja'' @ [34] @ u '','' @ [34] @ u ''en'' @ [34] @ u '')'']
   \<and> map (\<lambda>l. case l of Header h \<Rightarrow> [] | Row x \<Rightarrow> image_preview x) (tl (csv after_page_2))
       = [u ''=IF(LEN(F2),IMAGE(F2,'' @ [34, 34] @ u '',3,160,160),'' @ [34, 34] @ u '')'',
          u ''=IF(LEN(F3),IMAGE(F3,'' @ [34, 34] @ u '',3,160,160),'' @ [34, 34] @ u '')'',
          u ''=IF(LEN(F4),IMAGE(F4,'' @ [34, 34] @ u '',3,160,160),'' @ [34, 34] @ u '')'']"
proof -
  have csv: "csv after_page_2 = [Header fieldnames, Row (with_formulas rowA 2),
      Row (with_formulas rowB 3), Row (with_formulas rowC 4)]"
    by (simp add: after_page_2_def)
  have ids: "item_id (with_formulas rowA 2) = Some (u ''A'')"
    "item_id (with_formulas rowB 3) = Some (u ''B'')"
    "item_id (with_formulas rowC 4) = Some (u ''C'')"
    by (simp_all add: with_formulas_def item.defs rowA_def rowB_def rowC_def)
  have t: "title_en_formula 2 = u ''=TRANSLATE(B2,'' @ [34] @ u ''ja'' @ [34] @ u '','' @ [34] @ u ''en'' @ [34] @ u '')''"
    "title_en_formula 3 = u ''=TRANSLATE(B3,'' @ [34] @ u ''ja'' @ [34] @ u '','' @ [34] @ u ''en'' @ [34] @ u '')''"
    "title_en_formula 4 = u ''=TRANSLATE(B4,'' @ [34] @ u ''ja'' @ [34] @ u '','' @ [34] @ u ''en'' @ [34] @ u '')''"
    by (simp_all add: title_en_formula_def int_text_digit u_def)
  have i: "image_preview_formula 2 = u ''=IF(LEN(F2),IMAGE(F2,'' @ [34, 34] @ u '',3,160,160),'' @ [34, 34] @ u '')''"
    "image_preview_formula 3 = u ''=IF(LEN(F3),IMAGE(F3,'' @ [34, 34] @ u '',3,160,160),'' @ [34, 34] @ u '')''"
    "image_preview_formula 4 = u ''=IF(LEN(F4),IMAGE(F4,'' @ [34, 34] @ u '',3,160,160),'' @ [34, 34] @ u '')''"
    by (simp_all add: image_preview_formula_def int_text_digit int_text_160) (simp_all add: u_def)
  note r = formula_row_references [OF main_scenario]
  from r have h: "csv after_page_2 ! 0 = Header fieldnames" by blast
  from r have f: "k < length (csv after_page_2) \<and> csv after_page_2 ! k = Row x \<Longrightarrow>
      image_preview x = image_preview_formula (int k + 1) \<and> title_en x = title_en_formula (int k + 1)"
    for k x by blast
  from f [of 1 "with_formulas rowA 2"] f [of 2 "with_formulas rowB 3"]
    f [of 3 "with_formulas rowC 4"]
  have "image_preview (with_formulas rowA 2) = image_preview_formula 2"
    "title_en (with_formulas rowA 2) = title_en_formula 2"
    "image_preview (with_formulas rowB 3) = image_preview_formula 3"
    "title_en (with_formulas rowB 3) = title_en_formula 3"
    "image_preview (with_formulas rowC 4) = image_preview_formula 4"
    "title_en (with_formulas rowC 4) = title_en_formula 4"
    by (simp_all add: csv)
  with h main_scenario show ?thesis
    by (simp add: csv ids t i)
qed

subsection \<open>Blocks that yield nothing\<close>

lemma truthy_price:
  "clean_price x = Inr p \<Longrightarrow> truthy_int p = nonzero_price x"
  using clean_price_result [of "the x"]
  by (cases x) (auto simp: truthy_int_def nonzero_price_def decimal_value_def split: if_splits)

lemma clean_price_total:
  assumes "\<And>t. x = Some t \<Longrightarrow> length (filter is_decimal t) \<le> int_max_str_digits"
  shows "\<exists>p. clean_price x = Inr p"
proof (cases x)
  case None
  then show ?thesis using clean_price_result by simp
next
  case (Some t)
  from assms [OF Some] have "\<not> int_max_str_digits < length (filter is_decimal t)" by simp
  with Some show ?thesis using clean_price_result [of t] by simp
qed

lemma join_if_truthy:
  "join_if w page_url (href b) = Inr d \<Longrightarrow> truthy_str d = has_detail w page_url b"
  by (auto simp: join_if_def has_detail_def truthy_str_def split: option.splits if_splits sum.splits)

lemma join_if_total:
  assumes "\<And>s. x = Some s \<Longrightarrow> s \<noteq> [] \<Longrightarrow> is_Inr (urljoin w page_url s)"
  shows "\<exists>d. join_if w page_url x = Inr d"
proof (cases x)
  case None
  then show ?thesis by (simp add: join_if_def)
next
  case (Some s)
  show ?thesis
  proof (cases "s = []")
    case True
    with Some show ?thesis by (simp add: join_if_def)
  next
    case False
    with assms [OF Some] obtain r where "urljoin w page_url s = Inr r"
      by (cases "urljoin w page_url s") (simp_all add: is_Inr_def)
    with Some False show ?thesis by (simp add: join_if_def)
  qed
qed

text \<open>
  C4, amended. For a block whose price and buy-out texts hold at most 4300 digits each and
  whose detail link and image source \<^verbatim>\<open>urljoin\<close> accepts, the extraction of the block does
  not raise, and the block yields a record exactly when its title text is not empty, or its
  price or buy-out text denotes a number other than zero, or its detail link is not empty
  and joins to a non-empty URL. So a block with none of the four yields nothing, and so
  does one whose only content is an empty title or a price of zero.
\<close>

theorem noise_rejection:
  assumes "\<And>t. price_text b = Some t \<Longrightarrow> length (filter is_decimal t) \<le> int_max_str_digits"
    and "\<And>t. buyout_text b = Some t \<Longrightarrow> length (filter is_decimal t) \<le> int_max_str_digits"
    and "\<And>s. href b = Some s \<Longrightarrow> s \<noteq> [] \<Longrightarrow> is_Inr (urljoin w page_url s)"
    and "\<And>s. img_src b = Some s \<Longrightarrow> s \<noteq> [] \<Longrightarrow> strip s \<noteq> [] \<Longrightarrow>
           is_Inr (urljoin w page_url (strip s))"
  shows "\<exists>r. scrape_block w page_url b = Inr r
     \<and> ((r \<noteq> None) = (truthy_str (title_text b) \<or> nonzero_price (price_text b)
                        \<or> nonzero_price (buyout_text b) \<or> has_detail w page_url b))"
proof -
  obtain p where p: "clean_price (price_text b) = Inr p"
    using clean_price_total [of "price_text b"] assms(1) by blast
  obtain q where q: "clean_price (buyout_text b) = Inr q"
    using clean_price_total [of "buyout_text b"] assms(2) by blast
  obtain d where d: "join_if w page_url (href b) = Inr d"
    using join_if_total [of "href b" w page_url] assms(3) by blast
  have "\<exists>i. join_if w page_url
      (case img_src b of None \<Rightarrow> None | Some s \<Rightarrow> if s = [] then None else Some (strip s)) = Inr i"
    by (rule join_if_total) (use assms(4) in \<open>auto split: option.splits if_splits\<close>)
  then obtain i where i: "join_if w page_url
      (case img_src b of None \<Rightarrow> None | Some s \<Rightarrow> if s = [] then None else Some (strip s)) = Inr i"
    by blast
  show ?thesis
    by (simp add: scrape_block_def p q d i truthy_price [OF p] truthy_price [OF q]
        join_if_truthy [OF d])
qed

lemma clean_price_zero: "clean_price (Some (0xA5 # u ''0'')) = Inr (Some 0)"
  using clean_price_result [of "0xA5 # u ''0''"]
  by (simp add: u_def is_decimal_def decimal_def decimal_zeros_def decimal_value_def
      int_max_str_digits_def)

text \<open>
  C4 as stated fails: the price of this block is resolved (it is 0), and the block is
  dropped.
\<close>

theorem resolved_price_dropped_counterexample:
  "clean_price (price_text block_free) = Inr (Some 0)
   \<and> scrape_block world0 (u ''http://h/l?page=1'') block_free = Inr None"
  by (simp add: scrape_block_def block_free_def clean_price_zero clean_price_None join_if_def
      truthy_str_def truthy_int_def)

text \<open>A block with nothing in it yields nothing; the first block of the scenario yields \<open>A\<close>.\<close>

theorem noise_rejection_witness:
  "scrape_block world0 (u ''http://h/l?page=1'') block_noise = Inr None
   \<and> (\<exists>r. scrape_block world0 (u ''http://h/l?page=1'') blockA = Inr (Some r))"
proof -
  have j: "is_Inr (urljoin world0 url s)" for url s
    by (simp add: world0_def is_Inr_def)
  have n: "\<not> (truthy_str (title_text block_noise) \<or> nonzero_price (price_text block_noise)
      \<or> nonzero_price (buyout_text block_noise)
      \<or> has_detail world0 (u ''http://h/l?page=1'') block_noise)"
    by (simp add: block_noise_def truthy_str_def nonzero_price_def has_detail_def)
  have "\<exists>r. scrape_block world0 (u ''http://h/l?page=1'') block_noise = Inr r
     \<and> ((r \<noteq> None) = (truthy_str (title_text block_noise) \<or> nonzero_price (price_text block_noise)
                        \<or> nonzero_price (buyout_text block_noise)
                        \<or> has_detail world0 (u ''http://h/l?page=1'') block_noise))"
    by (rule noise_rejection) (simp_all add: block_noise_def j)
  with n have 1: "scrape_block world0 (u ''http://h/l?page=1'') block_noise = Inr None" by auto
  have t: "truthy_str (title_text blockA)" by (simp add: blockA_def truthy_str_def u_def)
  have "\<exists>r. scrape_block world0 (u ''http://h/l?page=1'') blockA = Inr r
     \<and> ((r \<noteq> None) = (truthy_str (title_text blockA) \<or> nonzero_price (price_text blockA)
                        \<or> nonzero_price (buyout_text blockA)
                        \<or> has_detail world0 (u ''http://h/l?page=1'') blockA))"
    by (rule noise_rejection)
      (simp_all add: blockA_def j u_def is_decimal_def decimal_def decimal_zeros_def
        int_max_str_digits_def)
  with t have 2: "\<exists>r. scrape_block world0 (u ''http://h/l?page=1'') blockA = Inr (Some r)"
    by auto
  from 1 2 show ?thesis by simp
qed

subsection \<open>The key of a detail URL\<close>

text \<open>
  C3. The two URLs of the specification differ only in the order of their parameters and
  in the fragment; \<^verbatim>\<open>normalize_detail_url\<close> drops the fragment and keeps the parameters in
  the order of the URL, so the keys differ.
\<close>

theorem normalize_keeps_parameter_order:
  "normalize_detail_url ascii_lib (Some (u ''detail_url?b=2&a=1''))
     = Inr (Some (u ''detail_url?b=2&a=1''))
   \<and> normalize_detail_url ascii_lib (Some (u ''detail_url?a=1&b=2#frag''))
     = Inr (Some (u ''detail_url?a=1&b=2''))
   \<and> normalize_detail_url ascii_lib (Some (u ''detail_url?b=2&a=1''))
     \<noteq> normalize_detail_url ascii_lib (Some (u ''detail_url?a=1&b=2#frag''))"
proof -
  have 1: "normalize_detail_url ascii_lib (Some (u ''detail_url?b=2&a=1''))
      = Inr (Some (u ''detail_url?b=2&a=1''))"
    by (simp add: normalize_detail_url_def split_defs qs_defs encode_defs urlunsplit_def u_def)
  have 2: "normalize_detail_url ascii_lib (Some (u ''detail_url?a=1&b=2#frag''))
      = Inr (Some (u ''detail_url?a=1&b=2''))"
    by (simp add: normalize_detail_url_def split_defs qs_defs encode_defs urlunsplit_def u_def)
  have "u ''detail_url?b=2&a=1'' \<noteq> u ''detail_url?a=1&b=2''" by (simp add: u_def)
  with 1 2 show ?thesis by simp
qed

end
